theory Spec2Isabelle
  imports Main "HOL-Library.Word"
begin

unbundle bit_operations_syntax

section \<open>bitmapist: data model\<close>

text \<open>
  The library is Python 2 code (\<^verbatim>\<open>xrange\<close>, old-style mixins): its integers are unbounded
  (\<^typ>\<open>int\<close>) and \<^verbatim>\<open>/\<close> on integers is floor division, which is \<^term>\<open>(div)\<close> on
  \<^typ>\<open>int\<close>. An omitted argument is \<^verbatim>\<open>None\<close>, modelled by \<^typ>\<open>int option\<close>.
\<close>

datatype py_error = TypeError | ValueError | ResponseError

text \<open>
  \<^verbatim>\<open>MixinCounts.ERROR = 'error'\<close>: the value the byte conversions return in place of a
  byte index.
\<close>

datatype byte_index = ERROR | Byte int

subsection \<open>Byte conversions (\<^verbatim>\<open>MixinCounts._convert_to_start_byte\<close>, \<^verbatim>\<open>_convert_to_end_byte\<close>)\<close>

text \<open>
  \<^verbatim>\<open>
  def _convert_to_start_byte(self, bit):
      if -7 <= bit < 0:
          return self.ERROR
      else:
          return (bit + 7) / 8
  \<close>
  With \<^verbatim>\<open>bit = None\<close>, Python 2 orders \<^verbatim>\<open>None\<close> below every integer: \<^verbatim>\<open>-7 <= None\<close> is
  false, the else branch computes \<^verbatim>\<open>None + 7\<close> and raises \<^verbatim>\<open>TypeError\<close>.
\<close>

fun convert_to_start_byte :: "int option \<Rightarrow> py_error + byte_index" where
  "convert_to_start_byte None = Inl TypeError"
| "convert_to_start_byte (Some b) =
     (if -7 \<le> b \<and> b < 0 then Inr ERROR else Inr (Byte ((b + 7) div 8)))"

text \<open>
  \<^verbatim>\<open>
  def _convert_to_end_byte(self, bit):
      if bit < 0:
          return (bit + 1) / 8 - 1
      elif bit < 7:
          return self.ERROR
      else:
          return (bit - 7) / 8
  \<close>
  With \<^verbatim>\<open>bit = None\<close>, \<^verbatim>\<open>None < 0\<close> is true in Python 2 and \<^verbatim>\<open>None + 1\<close> raises
  \<^verbatim>\<open>TypeError\<close>.
\<close>

fun convert_to_end_byte :: "int option \<Rightarrow> py_error + byte_index" where
  "convert_to_end_byte None = Inl TypeError"
| "convert_to_end_byte (Some b) =
     (if b < 0 then Inr (Byte ((b + 1) div 8 - 1))
      else if b < 7 then Inr ERROR
      else Inr (Byte ((b - 7) div 8)))"

subsection \<open>The store client\<close>

text \<open>
  \<^verbatim>\<open>redis_client\<close> is an object handed to \<^verbatim>\<open>Bitmapist\<close> by the caller; the library only
  calls its methods. It is a parameter of the model: a record of the methods the library
  calls, over a store state \<open>'s\<close>. Reads return a value or raise; writes return the new
  state together with \<^verbatim>\<open>None\<close> or the exception raised. \<^verbatim>\<open>bitcount\<close> takes the optional
  byte range \<^verbatim>\<open>start=, end=\<close>. A pipeline (\<^verbatim>\<open>p.multi(); p.setbit(...); p.expire(...);
  p.execute()\<close>) queues commands and hands them over in \<^verbatim>\<open>execute\<close>; the flag is the
  \<^verbatim>\<open>transaction\<close> argument of \<^verbatim>\<open>pipeline()\<close>.
\<close>

datatype command =
    SETBIT string int int
  | EXPIRE string int
  | BITOP string string "string list"

record 's redis_client =
  getbit :: "string \<Rightarrow> int \<Rightarrow> 's \<Rightarrow> py_error + nat"
  bitcount :: "string \<Rightarrow> (int \<times> int) option \<Rightarrow> 's \<Rightarrow> py_error + nat"
  setbit :: "string \<Rightarrow> int \<Rightarrow> int \<Rightarrow> 's \<Rightarrow> (py_error + unit) \<times> 's"
  expire :: "string \<Rightarrow> int \<Rightarrow> 's \<Rightarrow> (py_error + unit) \<times> 's"
  bitop :: "string \<Rightarrow> string \<Rightarrow> string list \<Rightarrow> 's \<Rightarrow> (py_error + unit) \<times> 's"
  execute :: "bool \<Rightarrow> command list \<Rightarrow> 's \<Rightarrow> (py_error + unit) \<times> 's"

subsection \<open>\<^verbatim>\<open>MixinCounts.get_count\<close>\<close>

text \<open>
  Python 2's \<^verbatim>\<open>xrange(start, stop, step)\<close> for a non-zero step: the values
  \<open>start + k * step\<close> that lie before \<open>stop\<close> in the direction of the step.
\<close>

definition xrange_len :: "int \<Rightarrow> int \<Rightarrow> int \<Rightarrow> nat" where
  "xrange_len start stop step =
     (if 0 < step \<and> start < stop then nat ((stop - start - 1) div step + 1)
      else if step < 0 \<and> stop < start then nat ((start - stop - 1) div (- step) + 1)
      else 0)"

definition xrange :: "int \<Rightarrow> int \<Rightarrow> int \<Rightarrow> int list" where
  "xrange start stop step = map (\<lambda>k. start + int k * step) [0 ..< xrange_len start stop step]"

text \<open>
  \<^verbatim>\<open>for offset in <offsets>: total_bits += cli.getbit(self.redis_key, offset)\<close>; an
  exception raised by the client ends the loop.
\<close>

fun getbit_loop :: "(int \<Rightarrow> py_error + nat) \<Rightarrow> int list \<Rightarrow> nat \<Rightarrow> py_error + nat" where
  "getbit_loop g [] total_bits = Inr total_bits"
| "getbit_loop g (offset # offsets) total_bits =
     (case g offset of
        Inl e \<Rightarrow> Inl e
      | Inr b \<Rightarrow> getbit_loop g offsets (total_bits + b))"

text \<open>Python's \<^verbatim>\<open>not x\<close> for \<^verbatim>\<open>x\<close> an integer or \<^verbatim>\<open>None\<close>: true for \<^verbatim>\<open>None\<close> and for \<^verbatim>\<open>0\<close>.\<close>

definition py_not :: "int option \<Rightarrow> bool" where
  "py_not x = (case x of None \<Rightarrow> True | Some b \<Rightarrow> b = 0)"

text \<open>
  The two per-bit loops of the split branch and the loop of the fallback branch walk these
  offsets:
  \<^verbatim>\<open>xrange(start_bit, bit_floor, (start_bit >= 0 and 1 or -1))\<close>,
  \<^verbatim>\<open>xrange(bit_ceiling, end_bit + 1, (bit_ceiling >= 0 and 1 or -1))\<close>,
  \<^verbatim>\<open>xrange(start_bit, end_bit + 1)\<close>.
\<close>

definition leading_offsets :: "int \<Rightarrow> int \<Rightarrow> int list" where
  "leading_offsets start_bit start_byte =
     (let bit_floor = start_byte * 8
      in xrange start_bit bit_floor (if start_bit \<ge> 0 then 1 else -1))"

definition trailing_offsets :: "int \<Rightarrow> int \<Rightarrow> int list" where
  "trailing_offsets end_byte end_bit =
     (let bit_ceiling = (end_byte + 1) * 8
      in xrange bit_ceiling (end_bit + 1) (if bit_ceiling \<ge> 0 then 1 else -1))"

definition fallback_offsets :: "int \<Rightarrow> int \<Rightarrow> int list" where
  "fallback_offsets start_bit end_bit = xrange start_bit (end_bit + 1) 1"

text \<open>
  Lines 319 to 340 of \<^verbatim>\<open>get_count\<close>, after both conversions returned:
  \<^verbatim>\<open>
  total_bits = 0
  if start_byte != self.ERROR and end_byte != self.ERROR:
      bit_floor = start_byte * 8
      for offset in xrange(start_bit, bit_floor, (start_bit >= 0 and 1 or -1)):
          total_bits += cli.getbit(self.redis_key, offset)
      total_bits += cli.bitcount(self.redis_key, start=start_byte, end=end_byte)
      bit_ceiling = (end_byte + 1) * 8
      for offset in xrange(bit_ceiling, end_bit + 1, (bit_ceiling >= 0 and 1 or -1)):
          total_bits += cli.getbit(self.redis_key, offset)
  else:
      for offset in xrange(start_bit, end_bit + 1):
          total_bits += cli.getbit(self.redis_key, offset)
  return total_bits
  \<close>
\<close>

definition count_bits ::
  "'s redis_client \<Rightarrow> string \<Rightarrow> int \<Rightarrow> int \<Rightarrow> byte_index \<Rightarrow> byte_index \<Rightarrow> 's \<Rightarrow> py_error + nat" where
  "count_bits cli redis_key start_bit end_bit start_byte end_byte s =
     (case (start_byte, end_byte) of
        (Byte sb, Byte eb) \<Rightarrow>
          (case getbit_loop (\<lambda>offset. getbit cli redis_key offset s)
                  (leading_offsets start_bit sb) 0 of
             Inl e \<Rightarrow> Inl e
           | Inr total_bits \<Rightarrow>
               (case bitcount cli redis_key (Some (sb, eb)) s of
                  Inl e \<Rightarrow> Inl e
                | Inr n \<Rightarrow>
                    getbit_loop (\<lambda>offset. getbit cli redis_key offset s)
                      (trailing_offsets eb end_bit) (total_bits + n)))
      | _ \<Rightarrow>
          getbit_loop (\<lambda>offset. getbit cli redis_key offset s)
            (fallback_offsets start_bit end_bit) 0)"

text \<open>
  \<^verbatim>\<open>
  def get_count(self, start_bit=None, end_bit=None):
      cli = self.redis_client
      if not start_bit and not end_bit:
          return cli.bitcount(self.redis_key)
      start_byte = self._convert_to_start_byte(start_bit)
      end_byte = self._convert_to_end_byte(end_bit)
      ...
  \<close>
  Once both conversions have returned, both bounds are integers.
\<close>

definition get_count ::
  "'s redis_client \<Rightarrow> string \<Rightarrow> int option \<Rightarrow> int option \<Rightarrow> 's \<Rightarrow> py_error + nat" where
  "get_count cli redis_key start_bit end_bit s =
     (if py_not start_bit \<and> py_not end_bit then bitcount cli redis_key None s
      else
        (case convert_to_start_byte start_bit of
           Inl e \<Rightarrow> Inl e
         | Inr start_byte \<Rightarrow>
             (case convert_to_end_byte end_bit of
                Inl e \<Rightarrow> Inl e
              | Inr end_byte \<Rightarrow>
                  (case (start_bit, end_bit) of
                     (Some sb, Some eb) \<Rightarrow> count_bits cli redis_key sb eb start_byte end_byte s
                   | _ \<Rightarrow> Inl TypeError))))"

text \<open>
  The slow reference of the specification: the sum of \<^verbatim>\<open>getbit\<close> over every index of
  \<open>[start, end]\<close>, one at a time.
\<close>

definition naive_count :: "'s redis_client \<Rightarrow> string \<Rightarrow> int \<Rightarrow> int \<Rightarrow> 's \<Rightarrow> py_error + nat" where
  "naive_count cli redis_key start_bit end_bit s =
     getbit_loop (\<lambda>offset. getbit cli redis_key offset s) [start_bit .. end_bit] 0"

subsection \<open>\<^verbatim>\<open>MixinContains.__contains__\<close>\<close>

text \<open>
  \<^verbatim>\<open>
  def __contains__(self, uuid):
      cli = self.redis_client
      if cli.getbit(self.redis_key, uuid):
          return True
      else:
          return False
  \<close>
\<close>

definition contains :: "'s redis_client \<Rightarrow> string \<Rightarrow> int \<Rightarrow> 's \<Rightarrow> py_error + bool" where
  "contains cli redis_key uuid s =
     (case getbit cli redis_key uuid s of
        Inl e \<Rightarrow> Inl e
      | Inr b \<Rightarrow> Inr (b \<noteq> 0))"

subsection \<open>Keys\<close>

text \<open>\<^verbatim>\<open>divider.join(parts)\<close>.\<close>

fun join :: "string \<Rightarrow> string list \<Rightarrow> string" where
  "join d [] = []"
| "join d [x] = x"
| "join d (x # y # ys) = x @ d @ join d (y # ys)"

text \<open>\<^verbatim>\<open>'%s' % n\<close> for an integer: its decimal digits, with a leading minus sign when negative.\<close>

definition digit_char :: "nat \<Rightarrow> char" where
  "digit_char n = ''0123456789'' ! (n mod 10)"

fun str_nat :: "nat \<Rightarrow> string" where
  "str_nat n = (if n < 10 then [digit_char n] else str_nat (n div 10) @ [digit_char n])"

definition str_int :: "int \<Rightarrow> string" where
  "str_int i = (if i < 0 then CHR ''-'' # str_nat (nat (- i)) else str_nat (nat i))"

text \<open>
  \<^verbatim>\<open>
  def _prefix_key(event_name, prefix, divider, date=None):
      if date:
          return divider.join([prefix, 'ev', event_name, date])
      else:
          return divider.join([prefix, 'at', event_name])
  \<close>
  \<^verbatim>\<open>if date\<close> is false for \<^verbatim>\<open>None\<close> and for the empty string.
\<close>

definition prefix_key :: "string \<Rightarrow> string \<Rightarrow> string \<Rightarrow> string option \<Rightarrow> string" where
  "prefix_key event_name prefix divider date =
     (case date of
        None \<Rightarrow> join divider [prefix, ''at'', event_name]
      | Some d \<Rightarrow>
          if d \<noteq> [] then join divider [prefix, ''ev'', event_name, d]
          else join divider [prefix, ''at'', event_name])"

text \<open>
  \<^verbatim>\<open>class Bitmap\<close>: a handle on one key. Every handle of one \<^verbatim>\<open>Bitmapist\<close> carries that
  object's client, which the model passes along separately.
\<close>

datatype Bitmap = Bitmap (redis_key: string)

text \<open>
  The period tokens: \<^verbatim>\<open>'%s-%s' % (year, month)\<close>, \<^verbatim>\<open>'W%s-%s' % (year, week)\<close>,
  \<^verbatim>\<open>'%s-%s-%s' % (year, month, day)\<close>, \<^verbatim>\<open>'%s-%s-%s-%s' % (year, month, day, hour)\<close>.
\<close>

definition MonthEvents :: "string \<Rightarrow> int \<Rightarrow> int \<Rightarrow> string \<Rightarrow> string \<Rightarrow> Bitmap" where
  "MonthEvents event_name year month prefix divider =
     Bitmap (prefix_key event_name prefix divider
       (Some (str_int year @ ''-'' @ str_int month)))"

definition WeekEvents :: "string \<Rightarrow> int \<Rightarrow> int \<Rightarrow> string \<Rightarrow> string \<Rightarrow> Bitmap" where
  "WeekEvents event_name year week prefix divider =
     Bitmap (prefix_key event_name prefix divider
       (Some (''W'' @ str_int year @ ''-'' @ str_int week)))"

definition DayEvents :: "string \<Rightarrow> int \<Rightarrow> int \<Rightarrow> int \<Rightarrow> string \<Rightarrow> string \<Rightarrow> Bitmap" where
  "DayEvents event_name year month day prefix divider =
     Bitmap (prefix_key event_name prefix divider
       (Some (str_int year @ ''-'' @ str_int month @ ''-'' @ str_int day)))"

definition HourEvents ::
  "string \<Rightarrow> int \<Rightarrow> int \<Rightarrow> int \<Rightarrow> int \<Rightarrow> string \<Rightarrow> string \<Rightarrow> Bitmap" where
  "HourEvents event_name year month day hour prefix divider =
     Bitmap (prefix_key event_name prefix divider
       (Some (str_int year @ ''-'' @ str_int month @ ''-'' @ str_int day @ ''-'' @ str_int hour)))"

definition Attributes :: "string \<Rightarrow> string \<Rightarrow> string \<Rightarrow> Bitmap" where
  "Attributes attribute_name prefix divider =
     Bitmap (prefix_key attribute_name prefix divider None)"

subsection \<open>Bit operations\<close>

text \<open>
  \<^verbatim>\<open>
  def __init__(self, op_name, prefix, divider, redis_client, ttl, *events):
      event_redis_keys = [ev.redis_key for ev in events]
      self.redis_key = divider.join([prefix, 'bitop', op_name, '-'.join(event_redis_keys)])
      self.redis_client = redis_client
      self.redis_client.bitop(op_name, self.redis_key, *event_redis_keys)
      self.redis_client.expire(self.redis_key, ttl)
  \<close>
  The constructor returns the new handle, or the exception of the first client call that
  raised.
\<close>

definition BitOperation_key :: "string \<Rightarrow> string \<Rightarrow> string \<Rightarrow> Bitmap list \<Rightarrow> string" where
  "BitOperation_key op_name prefix divider events =
     join divider [prefix, ''bitop'', op_name, join ''-'' (map redis_key events)]"

definition BitOperation ::
  "string \<Rightarrow> string \<Rightarrow> string \<Rightarrow> 's redis_client \<Rightarrow> int \<Rightarrow> Bitmap list \<Rightarrow> 's
     \<Rightarrow> (py_error + Bitmap) \<times> 's" where
  "BitOperation op_name prefix divider cli ttl events s =
     (let event_redis_keys = map redis_key events;
          key = BitOperation_key op_name prefix divider events
      in case bitop cli op_name key event_redis_keys s of
           (Inl e, s1) \<Rightarrow> (Inl e, s1)
         | (Inr _, s1) \<Rightarrow>
             (case expire cli key ttl s1 of
                (Inl e, s2) \<Rightarrow> (Inl e, s2)
              | (Inr _, s2) \<Rightarrow> (Inr (Bitmap key), s2)))"

definition BitOpAnd ::
  "string \<Rightarrow> string \<Rightarrow> 's redis_client \<Rightarrow> int \<Rightarrow> Bitmap list \<Rightarrow> 's \<Rightarrow> (py_error + Bitmap) \<times> 's" where
  "BitOpAnd prefix divider cli ttl events = BitOperation ''AND'' prefix divider cli ttl events"

definition BitOpNot ::
  "string \<Rightarrow> string \<Rightarrow> 's redis_client \<Rightarrow> int \<Rightarrow> Bitmap \<Rightarrow> 's \<Rightarrow> (py_error + Bitmap) \<times> 's" where
  "BitOpNot prefix divider cli ttl event = BitOperation ''Not'' prefix divider cli ttl [event]"

definition BitOpOr ::
  "string \<Rightarrow> string \<Rightarrow> 's redis_client \<Rightarrow> int \<Rightarrow> Bitmap list \<Rightarrow> 's \<Rightarrow> (py_error + Bitmap) \<times> 's" where
  "BitOpOr prefix divider cli ttl events = BitOperation ''OR'' prefix divider cli ttl events"

definition BitOpXor ::
  "string \<Rightarrow> string \<Rightarrow> 's redis_client \<Rightarrow> int \<Rightarrow> Bitmap list \<Rightarrow> 's \<Rightarrow> (py_error + Bitmap) \<times> 's" where
  "BitOpXor prefix divider cli ttl events = BitOperation ''XOR'' prefix divider cli ttl events"

subsection \<open>\<^verbatim>\<open>class Bitmapist\<close>\<close>

text \<open>
  \<^verbatim>\<open>
  def __init__(self, redis_client, prefix='trackist', divider=':', temp_ttl=None):
      self.redis_client = redis_client
      self.prefix = prefix
      self.divider = divider
      self.temp_ttl = temp_ttl or 60
  \<close>
\<close>

record 's Bitmapist =
  redis_client :: "'s redis_client"
  prefix :: string
  divider :: string
  temp_ttl :: int

definition Bitmapist_init ::
  "'s redis_client \<Rightarrow> string option \<Rightarrow> string option \<Rightarrow> int option \<Rightarrow> 's Bitmapist" where
  "Bitmapist_init cli p d t =
     \<lparr> redis_client = cli,
       prefix = (case p of None \<Rightarrow> ''trackist'' | Some x \<Rightarrow> x),
       divider = (case d of None \<Rightarrow> '':'' | Some x \<Rightarrow> x),
       temp_ttl = (case t of None \<Rightarrow> 60 | Some x \<Rightarrow> if x = 0 then 60 else x) \<rparr>"

text \<open>
  A \<^verbatim>\<open>datetime\<close>: the attributes the library reads, and the value of its
  \<^verbatim>\<open>isocalendar()\<close> (ISO year, ISO week number, ISO weekday), which the standard library
  computes. All of them are non-negative.
\<close>

record datetime =
  year :: nat
  month :: nat
  day :: nat
  hour :: nat
  isocalendar :: "nat \<times> nat \<times> nat"

definition get_month_event :: "'s Bitmapist \<Rightarrow> string \<Rightarrow> datetime \<Rightarrow> Bitmap" where
  "get_month_event self event_name now =
     MonthEvents event_name (int (year now)) (int (month now)) (prefix self) (divider self)"

definition get_week_event :: "'s Bitmapist \<Rightarrow> string \<Rightarrow> datetime \<Rightarrow> Bitmap" where
  "get_week_event self event_name now =
     WeekEvents event_name (int (fst (isocalendar now))) (int (fst (snd (isocalendar now))))
       (prefix self) (divider self)"

definition get_day_event :: "'s Bitmapist \<Rightarrow> string \<Rightarrow> datetime \<Rightarrow> Bitmap" where
  "get_day_event self event_name now =
     DayEvents event_name (int (year now)) (int (month now)) (int (day now))
       (prefix self) (divider self)"

definition get_hour_event :: "'s Bitmapist \<Rightarrow> string \<Rightarrow> datetime \<Rightarrow> Bitmap" where
  "get_hour_event self event_name now =
     HourEvents event_name (int (year now)) (int (month now)) (int (day now)) (int (hour now))
       (prefix self) (divider self)"

definition get_attribute :: "'s Bitmapist \<Rightarrow> string \<Rightarrow> Bitmap" where
  "get_attribute self attribute_name = Attributes attribute_name (prefix self) (divider self)"

text \<open>
  The period tokens the four methods above format for an instant, and the key of the
  bucket of an event with a given token.
\<close>

definition month_token :: "datetime \<Rightarrow> string" where
  "month_token now = str_nat (year now) @ ''-'' @ str_nat (month now)"

definition week_token :: "datetime \<Rightarrow> string" where
  "week_token now =
     ''W'' @ str_nat (fst (isocalendar now)) @ ''-'' @ str_nat (fst (snd (isocalendar now)))"

definition day_token :: "datetime \<Rightarrow> string" where
  "day_token now = str_nat (year now) @ ''-'' @ str_nat (month now) @ ''-'' @ str_nat (day now)"

definition hour_token :: "datetime \<Rightarrow> string" where
  "hour_token now =
     str_nat (year now) @ ''-'' @ str_nat (month now) @ ''-'' @ str_nat (day now)
       @ ''-'' @ str_nat (hour now)"

definition event_key :: "'s Bitmapist \<Rightarrow> string \<Rightarrow> string \<Rightarrow> string" where
  "event_key self event_name token =
     prefix self @ divider self @ ''ev'' @ divider self @ event_name @ divider self @ token"

text \<open>
  \<^verbatim>\<open>bit_op_and(self, *bitmaps)\<close>, \<^verbatim>\<open>bit_op_or\<close> and \<^verbatim>\<open>bit_op_xor\<close> take any number of
  operands, also none. \<^verbatim>\<open>bit_op_not(self, bitmap)\<close> has one positional parameter: called
  with any other number of operands, Python raises \<^verbatim>\<open>TypeError\<close> when it binds the
  arguments, before the body runs. The model takes the operands of the call as a list.
\<close>

definition bit_op_and :: "'s Bitmapist \<Rightarrow> Bitmap list \<Rightarrow> 's \<Rightarrow> (py_error + Bitmap) \<times> 's" where
  "bit_op_and self bitmaps =
     BitOpAnd (prefix self) (divider self) (redis_client self) (temp_ttl self) bitmaps"

definition bit_op_or :: "'s Bitmapist \<Rightarrow> Bitmap list \<Rightarrow> 's \<Rightarrow> (py_error + Bitmap) \<times> 's" where
  "bit_op_or self bitmaps =
     BitOpOr (prefix self) (divider self) (redis_client self) (temp_ttl self) bitmaps"

definition bit_op_xor :: "'s Bitmapist \<Rightarrow> Bitmap list \<Rightarrow> 's \<Rightarrow> (py_error + Bitmap) \<times> 's" where
  "bit_op_xor self bitmaps =
     BitOpXor (prefix self) (divider self) (redis_client self) (temp_ttl self) bitmaps"

definition bit_op_not :: "'s Bitmapist \<Rightarrow> Bitmap list \<Rightarrow> 's \<Rightarrow> (py_error + Bitmap) \<times> 's" where
  "bit_op_not self args s =
     (case args of
        [bitmap] \<Rightarrow>
          BitOpNot (prefix self) (divider self) (redis_client self) (temp_ttl self) bitmap s
      | _ \<Rightarrow> (Inl TypeError, s))"

subsection \<open>Marking\<close>

text \<open>
  \<^verbatim>\<open>
  def mark_event(self, event_name, uuid, now=None, month=True, week=True, day=True, hour=True,
          month_ttl=None, week_ttl=None, day_ttl=None, hour_ttl=None):
      if not now:
          now = datetime.utcnow()
      stat_objs = []
      if month:
          stat_objs.append((self.get_month_event(event_name, now), month_ttl))
      if week:
          stat_objs.append((self.get_week_event(event_name, now), week_ttl))
      if day:
          stat_objs.append((self.get_day_event(event_name, now), day_ttl))
      if hour:
          stat_objs.append((self.get_hour_event(event_name, now), hour_ttl))
      with self.redis_client.pipeline() as p:
          p.multi()
          for obj, ttl in stat_objs:
              p.setbit(obj.redis_key, uuid, 1)
              if ttl is not None:
                  p.expire(obj.redis_key, ttl)
          p.execute()
  \<close>
  \<open>utcnow\<close> is what the clock reads when \<^verbatim>\<open>now\<close> is omitted.
\<close>

definition stat_objs ::
  "'s Bitmapist \<Rightarrow> string \<Rightarrow> datetime \<Rightarrow> bool \<Rightarrow> bool \<Rightarrow> bool \<Rightarrow> bool
     \<Rightarrow> int option \<Rightarrow> int option \<Rightarrow> int option \<Rightarrow> int option \<Rightarrow> (Bitmap \<times> int option) list" where
  "stat_objs self event_name now mo we da ho month_ttl week_ttl day_ttl hour_ttl =
     (if mo then [(get_month_event self event_name now, month_ttl)] else [])
     @ (if we then [(get_week_event self event_name now, week_ttl)] else [])
     @ (if da then [(get_day_event self event_name now, day_ttl)] else [])
     @ (if ho then [(get_hour_event self event_name now, hour_ttl)] else [])"

fun mark_commands :: "int \<Rightarrow> (Bitmap \<times> int option) list \<Rightarrow> command list" where
  "mark_commands uuid [] = []"
| "mark_commands uuid ((obj, ttl) # objs) =
     SETBIT (redis_key obj) uuid 1
     # (case ttl of None \<Rightarrow> [] | Some t \<Rightarrow> [EXPIRE (redis_key obj) t])
     @ mark_commands uuid objs"

definition mark_event ::
  "'s Bitmapist \<Rightarrow> datetime \<Rightarrow> string \<Rightarrow> int \<Rightarrow> datetime option \<Rightarrow> bool \<Rightarrow> bool \<Rightarrow> bool \<Rightarrow> bool
     \<Rightarrow> int option \<Rightarrow> int option \<Rightarrow> int option \<Rightarrow> int option \<Rightarrow> 's \<Rightarrow> (py_error + unit) \<times> 's" where
  "mark_event self utcnow event_name uuid now_arg mo we da ho
       month_ttl week_ttl day_ttl hour_ttl s =
     (let now = (case now_arg of None \<Rightarrow> utcnow | Some n \<Rightarrow> n)
      in execute (redis_client self) True
           (mark_commands uuid
              (stat_objs self event_name now mo we da ho month_ttl week_ttl day_ttl hour_ttl)) s)"

text \<open>
  \<^verbatim>\<open>
  def mark_attribute_multi(self, attribute_name, uuids, mark_as=1):
      if mark_as not in (0, 1):
          raise ValueError('Can only mark bitmaps with 0 or 1')
      obj = self.get_attribute(attribute_name)
      with self.redis_client.pipeline(transaction=False) as p:
          p.multi()
          for _id in uuids:
              p.setbit(obj.redis_key, _id, mark_as)
          p.execute()
  \<close>
\<close>

definition mark_attribute_multi ::
  "'s Bitmapist \<Rightarrow> string \<Rightarrow> int list \<Rightarrow> int \<Rightarrow> 's \<Rightarrow> (py_error + unit) \<times> 's" where
  "mark_attribute_multi self attribute_name uuids mark_as s =
     (if mark_as \<notin> {0, 1} then (Inl ValueError, s)
      else
        (let obj = get_attribute self attribute_name
         in execute (redis_client self) False
              (map (\<lambda>id. SETBIT (redis_key obj) id mark_as) uuids) s))"

text \<open>
  \<^verbatim>\<open>
  def mark_attribute(self, attribute_name, uuid, mark_as=1):
      if mark_as not in (0, 1):
          raise ValueError('Can only mark bitmaps with 0 or 1')
      if type(uuid) is list:
          return self.mark_attribute_multi(attribute_name, uuid, mark_as)
      obj = self.get_attribute(attribute_name)
      self.redis_client.setbit(obj.redis_key, uuid, mark_as)
  \<close>
  The \<^verbatim>\<open>uuid\<close> argument is one identity or a list of them.
\<close>

datatype uuid_arg = Single int | Multi "int list"

definition mark_attribute ::
  "'s Bitmapist \<Rightarrow> string \<Rightarrow> uuid_arg \<Rightarrow> int \<Rightarrow> 's \<Rightarrow> (py_error + unit) \<times> 's" where
  "mark_attribute self attribute_name uuid mark_as s =
     (if mark_as \<notin> {0, 1} then (Inl ValueError, s)
      else
        (case uuid of
           Multi uuids \<Rightarrow> mark_attribute_multi self attribute_name uuids mark_as s
         | Single u \<Rightarrow>
             (let obj = get_attribute self attribute_name
              in setbit (redis_client self) (redis_key obj) u mark_as s)))"

section \<open>Two clients\<close>

subsection \<open>A byte-addressable bit-array store\<close>

text \<open>
  Modelled from the spec: the backing store is an external service, not code of the
  repository. Section 6 of the specification lists what it offers: \<open>set_bit\<close>, \<open>get_bit\<close>,
  \<open>bit_count\<close> over the whole key or over inclusive byte indices (negative ones counted
  from the end), \<open>bitwise_op\<close>, \<open>expire\<close> and a pipeline. The value under a key is a string
  of bytes; bit offset \<open>n\<close> is bit \<open>7 - n mod 8\<close> of byte \<open>n div 8\<close> (most significant bit
  first); a missing key reads as the empty string; a write past the end pads with zero
  bytes. Bit offsets are unsigned, so a negative offset is rejected; no upper bound on
  offsets is modelled. Time does not pass in the model: \<open>expire\<close> records the time to
  live, and removes the key at once when it is not positive.
\<close>

type_synonym bytes = "8 word list"

record store =
  strings :: "string \<Rightarrow> bytes option"
  ttls :: "string \<Rightarrow> int option"

definition byte_getbit :: "8 word \<Rightarrow> nat \<Rightarrow> nat" where
  "byte_getbit w k = (if bit w (7 - k) then 1 else 0)"

definition byte_popcount :: "8 word \<Rightarrow> nat" where
  "byte_popcount w = sum_list (map (byte_getbit w) [0 ..< 8])"

definition bytes_getbit :: "bytes \<Rightarrow> nat \<Rightarrow> nat" where
  "bytes_getbit v n =
     (if n div 8 < length v then byte_getbit (v ! (n div 8)) (n mod 8) else 0)"

definition bytes_setbit :: "bytes \<Rightarrow> nat \<Rightarrow> bool \<Rightarrow> bytes" where
  "bytes_setbit v n b =
     (let padded = v @ replicate (Suc (n div 8) - length v) 0;
          old = padded ! (n div 8)
      in padded[n div 8 :=
           (if b then set_bit (7 - n mod 8) old else unset_bit (7 - n mod 8) old)])"

text \<open>
  The byte range of \<open>bit_count\<close>: negative indices count from the end, indices are
  clamped to the string, and an empty range counts nothing.
\<close>

definition bytes_bitcount :: "bytes \<Rightarrow> (int \<times> int) option \<Rightarrow> nat" where
  "bytes_bitcount v byte_range =
     (case byte_range of
        None \<Rightarrow> sum_list (map byte_popcount v)
      | Some (start_byte, end_byte) \<Rightarrow>
          (let strlen = int (length v);
               start1 = (if start_byte < 0 then strlen + start_byte else start_byte);
               end1 = (if end_byte < 0 then strlen + end_byte else end_byte);
               start2 = (if start1 < 0 then 0 else start1);
               end2 = (if end1 < 0 then 0 else end1);
               end3 = (if end2 \<ge> strlen then strlen - 1 else end2)
           in if start2 > end3 then 0
              else sum_list (map byte_popcount
                     (take (nat (end3 - start2 + 1)) (drop (nat start2) v)))))"

definition value_of :: "store \<Rightarrow> string \<Rightarrow> bytes" where
  "value_of s key = (case strings s key of None \<Rightarrow> [] | Some v \<Rightarrow> v)"

definition store_getbit :: "string \<Rightarrow> int \<Rightarrow> store \<Rightarrow> py_error + nat" where
  "store_getbit key offset s =
     (if offset < 0 then Inl ResponseError
      else Inr (bytes_getbit (value_of s key) (nat offset)))"

definition store_bitcount :: "string \<Rightarrow> (int \<times> int) option \<Rightarrow> store \<Rightarrow> py_error + nat" where
  "store_bitcount key byte_range s = Inr (bytes_bitcount (value_of s key) byte_range)"

definition store_setbit :: "string \<Rightarrow> int \<Rightarrow> int \<Rightarrow> store \<Rightarrow> (py_error + unit) \<times> store" where
  "store_setbit key offset v s =
     (if offset < 0 \<or> (v \<noteq> 0 \<and> v \<noteq> 1) then (Inl ResponseError, s)
      else (Inr (),
            s\<lparr>strings := (strings s)(key \<mapsto> bytes_setbit (value_of s key) (nat offset) (v = 1))\<rparr>))"

definition store_expire :: "string \<Rightarrow> int \<Rightarrow> store \<Rightarrow> (py_error + unit) \<times> store" where
  "store_expire key ttl s =
     (case strings s key of
        None \<Rightarrow> (Inr (), s)
      | Some v \<Rightarrow>
          if ttl \<le> 0
          then (Inr (), s\<lparr>strings := (strings s)(key := None), ttls := (ttls s)(key := None)\<rparr>)
          else (Inr (), s\<lparr>ttls := (ttls s)(key \<mapsto> ttl)\<rparr>))"

text \<open>
  \<open>bitwise_op\<close>: operation names are read without regard to case (the library passes
  \<^verbatim>\<open>'AND'\<close>, \<^verbatim>\<open>'OR'\<close>, \<^verbatim>\<open>'XOR'\<close> and \<^verbatim>\<open>'Not'\<close>); operands are padded with zero bytes to
  the longest one; the call needs at least one source key, and exactly one for NOT; an
  empty result removes the destination.
\<close>

definition to_upper :: "char \<Rightarrow> char" where
  "to_upper c =
     (let n = (of_char c :: nat) in if 97 \<le> n \<and> n \<le> 122 then char_of (n - 32) else c)"

definition pad_to :: "nat \<Rightarrow> bytes \<Rightarrow> bytes" where
  "pad_to n v = v @ replicate (n - length v) 0"

definition combine :: "(8 word \<Rightarrow> 8 word \<Rightarrow> 8 word) \<Rightarrow> bytes list \<Rightarrow> bytes" where
  "combine f vs = (case vs of [] \<Rightarrow> [] | v # rest \<Rightarrow> foldl (map2 f) v rest)"

definition bitop_result :: "string \<Rightarrow> bytes list \<Rightarrow> bytes option" where
  "bitop_result op_name vs =
     (let n = foldr max (map length vs) 0;
          padded = map (pad_to n) vs;
          op_upper = map to_upper op_name
      in if vs = [] then None
         else if op_upper = ''AND'' then Some (combine (AND) padded)
         else if op_upper = ''OR'' then Some (combine (OR) padded)
         else if op_upper = ''XOR'' then Some (combine (XOR) padded)
         else if op_upper = ''NOT'' \<and> length vs = 1 then Some (map NOT (hd padded))
         else None)"

definition store_bitop ::
  "string \<Rightarrow> string \<Rightarrow> string list \<Rightarrow> store \<Rightarrow> (py_error + unit) \<times> store" where
  "store_bitop op_name dest srcs s =
     (case bitop_result op_name (map (value_of s) srcs) of
        None \<Rightarrow> (Inl ResponseError, s)
      | Some r \<Rightarrow>
          (Inr (),
           s\<lparr>strings := (strings s)(dest := (if r = [] then None else Some r)),
             ttls := (ttls s)(dest := None)\<rparr>))"

text \<open>
  The pipeline applies its commands in order; a command the store rejects does not stop
  the others, and the first rejection is raised at the end.
\<close>

fun store_command :: "command \<Rightarrow> store \<Rightarrow> (py_error + unit) \<times> store" where
  "store_command (SETBIT key offset v) s = store_setbit key offset v s"
| "store_command (EXPIRE key ttl) s = store_expire key ttl s"
| "store_command (BITOP op_name dest srcs) s = store_bitop op_name dest srcs s"

fun store_execute :: "command list \<Rightarrow> store \<Rightarrow> (py_error + unit) \<times> store" where
  "store_execute [] s = (Inr (), s)"
| "store_execute (c # cs) s =
     (case store_command c s of
        (r, s1) \<Rightarrow>
          (case store_execute cs s1 of
             (r', s2) \<Rightarrow> ((case r of Inl e \<Rightarrow> Inl e | Inr u \<Rightarrow> r'), s2)))"

definition store_client :: "store redis_client" where
  "store_client =
     \<lparr> getbit = store_getbit,
       bitcount = store_bitcount,
       setbit = store_setbit,
       expire = store_expire,
       bitop = store_bitop,
       execute = (\<lambda>transaction. store_execute) \<rparr>"

definition empty_store :: store where
  "empty_store = \<lparr> strings = (\<lambda>key. None), ttls = (\<lambda>key. None) \<rparr>"

text \<open>A time to live that is omitted or positive: the bucket outlives the call.\<close>

definition positive_ttl :: "int option \<Rightarrow> bool" where
  "positive_ttl ttl = (case ttl of None \<Rightarrow> True | Some t \<Rightarrow> 0 < t)"

text \<open>The store that holds one string, under one key.\<close>

definition store_with :: "string \<Rightarrow> bytes \<Rightarrow> store" where
  "store_with key v = \<lparr> strings = (\<lambda>k. None)(key \<mapsto> v), ttls = (\<lambda>k. None) \<rparr>"

subsection \<open>A client that records the calls it receives\<close>

text \<open>
  Its state is the list of the write commands it was sent, in order; it accepts every
  command and reads every bit as 0.
\<close>

definition recording_client :: "command list redis_client" where
  "recording_client =
     \<lparr> getbit = (\<lambda>key offset log. Inr 0),
       bitcount = (\<lambda>key byte_range log. Inr 0),
       setbit = (\<lambda>key offset v log. (Inr (), log @ [SETBIT key offset v])),
       expire = (\<lambda>key ttl log. (Inr (), log @ [EXPIRE key ttl])),
       bitop = (\<lambda>op_name dest srcs log. (Inr (), log @ [BITOP op_name dest srcs])),
       execute = (\<lambda>transaction cmds log. (Inr (), log @ cmds)) \<rparr>"

section \<open>Byte conversions\<close>

text \<open>
  C2. The start-byte conversion returns, for every integer \<open>start\<close>, the sentinel exactly
  when \<open>-7 \<le> start < 0\<close> and \<open>floor ((start + 7) / 8)\<close> otherwise; in particular
  \<open>start_byte (-16) = -2\<close>, \<open>start_byte (-8) = -1\<close>, \<open>start_byte (-7)\<close> is the sentinel,
  \<open>start_byte 0 = 0\<close> and \<open>start_byte 9 = 2\<close>.
\<close>

theorem convert_to_start_byte_spec:
  "convert_to_start_byte (Some start) =
     (if -7 \<le> start \<and> start < 0 then Inr ERROR else Inr (Byte ((start + 7) div 8)))
   \<and> (convert_to_start_byte (Some start) = Inr ERROR) = (-7 \<le> start \<and> start < 0)
   \<and> convert_to_start_byte (Some (-16)) = Inr (Byte (-2))
   \<and> convert_to_start_byte (Some (-8)) = Inr (Byte (-1))
   \<and> convert_to_start_byte (Some (-7)) = Inr ERROR
   \<and> convert_to_start_byte (Some 0) = Inr (Byte 0)
   \<and> convert_to_start_byte (Some 9) = Inr (Byte 2)"
  by simp

text \<open>
  C3. The end-byte conversion returns, for every integer \<open>end\<close>,
  \<open>floor ((end + 1) / 8) - 1\<close> when \<open>end < 0\<close>, the sentinel when \<open>0 \<le> end < 7\<close>, and
  \<open>floor ((end - 7) / 8)\<close> otherwise; in particular \<open>end_byte (-9) = -2\<close>,
  \<open>end_byte (-1) = -1\<close>, \<open>end_byte 6\<close> is the sentinel, \<open>end_byte 7 = 0\<close> and
  \<open>end_byte 127 = 15\<close>.
\<close>

theorem convert_to_end_byte_spec:
  "convert_to_end_byte (Some e) =
     (if e < 0 then Inr (Byte ((e + 1) div 8 - 1))
      else if e < 7 then Inr ERROR
      else Inr (Byte ((e - 7) div 8)))
   \<and> (convert_to_end_byte (Some e) = Inr ERROR) = (0 \<le> e \<and> e < 7)
   \<and> convert_to_end_byte (Some (-9)) = Inr (Byte (-2))
   \<and> convert_to_end_byte (Some (-1)) = Inr (Byte (-1))
   \<and> convert_to_end_byte (Some 6) = Inr ERROR
   \<and> convert_to_end_byte (Some 7) = Inr (Byte 0)
   \<and> convert_to_end_byte (Some 127) = Inr (Byte 15)"
  by simp

section \<open>Counting set bits\<close>

lemmas store_eval =
  store_client_def store_getbit_def store_bitcount_def store_with_def value_of_def
  bytes_getbit_def byte_getbit_def bytes_bitcount_def byte_popcount_def

lemmas count_eval =
  get_count_def count_bits_def naive_count_def leading_offsets_def trailing_offsets_def
  fallback_offsets_def xrange_def xrange_len_def py_not_def upt_conv_Cons upto.simps

subsection \<open>Where the split agrees with the reference\<close>

text \<open>On the bit-array store, a loop over offsets that are not negative adds up their bits.\<close>

lemma getbit_loop_append:
  "getbit_loop g (xs @ ys) t
     = (case getbit_loop g xs t of Inl e \<Rightarrow> Inl e | Inr t' \<Rightarrow> getbit_loop g ys t')"
  by (induction xs arbitrary: t) (auto split: sum.splits)

lemma xrange_up: "xrange a b 1 = map (\<lambda>k. a + int k) [0 ..< nat (b - a)]"
  by (simp add: xrange_def xrange_len_def)

lemma upto_as_map: "[a .. a + int n - 1] = map (\<lambda>k. a + int k) [0 ..< n]"
proof (induction n)
  case 0
  then show ?case by simp
next
  case (Suc n)
  have "[a .. a + int (Suc n) - 1] = [a .. a + int n - 1] @ [a + int n]"
    using upto_rec2 [of a "a + int n"] by simp
  then show ?case
    using Suc by simp
qed

lemma upto_xrange: "[a .. b] = xrange a (b + 1) 1"
  using upto_as_map [of a "nat (b + 1 - a)"]
  by (cases "a \<le> b") (simp_all add: xrange_up)

lemma store_loop_map:
  assumes "0 \<le> a"
  shows "getbit_loop (\<lambda>offset. getbit store_client key offset st)
           (map (\<lambda>k. a + int k) [0 ..< n]) t
         = Inr (t + (\<Sum>i = nat a ..< nat a + n. bytes_getbit (value_of st key) i))"
proof (induction n)
  case 0
  then show ?case by simp
next
  case (Suc n)
  have one: "getbit store_client key (a + int n) st
      = Inr (bytes_getbit (value_of st key) (nat a + n))"
    using assms by (simp add: store_client_def store_getbit_def nat_add_distrib)
  show ?case
    by (simp add: getbit_loop_append Suc one)
qed

lemma store_loop_xrange:
  assumes "0 \<le> a"
  shows "getbit_loop (\<lambda>offset. getbit store_client key offset st) (xrange a b 1) t
         = Inr (t + (\<Sum>i = nat a ..< nat b. bytes_getbit (value_of st key) i))"
proof (cases "a \<le> b")
  case True
  then have "nat a + nat (b - a) = nat b"
    using assms by simp
  then show ?thesis
    using store_loop_map [OF assms, of key st "nat (b - a)" t] by (simp add: xrange_up)
next
  case False
  then show ?thesis
    using assms by (simp add: xrange_up)
qed

text \<open>
  The count of a byte range is the sum of the bits of those bytes; bytes past the end of
  the string count nothing.
\<close>

lemma byte_popcount_sum: "byte_popcount w = (\<Sum>j = 0 ..< 8. byte_getbit w j)"
  by (simp add: byte_popcount_def sum_list_sum_nth atLeast_upt [symmetric] del: upt.simps)

lemma byte_bits_sum:
  "(\<Sum>i = 8 * k ..< 8 * k + 8. bytes_getbit v i)
     = (if k < length v then byte_popcount (v ! k) else 0)"
proof -
  have "(\<Sum>i = 8 * k ..< 8 * k + 8. bytes_getbit v i)
      = (\<Sum>j = 0 ..< 8. bytes_getbit v (j + 8 * k))"
    using sum.shift_bounds_nat_ivl [of "bytes_getbit v" 0 "8 * k" 8] by (simp add: add.commute)
  also have "\<dots> = (\<Sum>j = 0 ..< 8. if k < length v then byte_getbit (v ! k) j else 0)"
    by (rule sum.cong) (auto simp: bytes_getbit_def)
  also have "\<dots> = (if k < length v then byte_popcount (v ! k) else 0)"
    by (simp add: byte_popcount_sum)
  finally show ?thesis .
qed

lemma blocks_sum:
  "m \<le> n \<Longrightarrow> (\<Sum>i = 8 * m ..< 8 * n. bytes_getbit v i)
     = (\<Sum>k = m ..< n. if k < length v then byte_popcount (v ! k) else 0)"
proof (induction n)
  case 0
  then show ?case by simp
next
  case (Suc n)
  show ?case
  proof (cases "m = Suc n")
    case True
    then show ?thesis by simp
  next
    case False
    then have le: "m \<le> n"
      using Suc.prems by simp
    have "(\<Sum>i = 8 * m ..< 8 * Suc n. bytes_getbit v i)
        = (\<Sum>i = 8 * m ..< 8 * n. bytes_getbit v i)
          + (\<Sum>i = 8 * n ..< 8 * n + 8. bytes_getbit v i)"
      using sum.atLeastLessThan_concat [of "8 * m" "8 * n" "8 * n + 8" "bytes_getbit v"] le
      by (simp add: add.commute)
    then show ?thesis
      using Suc.IH [OF le] le by (simp add: byte_bits_sum)
  qed
qed

lemma sum_list_take_drop:
  "sum_list (map f (take n (drop m xs)))
     = (\<Sum>k = m ..< min (m + n) (length xs). f (xs ! k))"
proof -
  let ?ys = "map f (take n (drop m xs))"
  have len: "length ?ys = min n (length xs - m)"
    by simp
  have "sum_list ?ys = (\<Sum>i = 0 ..< length ?ys. ?ys ! i)"
    by (rule sum_list_sum_nth)
  also have "\<dots> = (\<Sum>i = 0 ..< min n (length xs - m). f (xs ! (i + m)))"
    unfolding len by (rule sum.cong) (auto simp: add.commute)
  also have "\<dots> = (\<Sum>k = 0 + m ..< min n (length xs - m) + m. f (xs ! k))"
    by (rule sum.shift_bounds_nat_ivl [symmetric])
  also have "\<dots> = (\<Sum>k = m ..< min (m + n) (length xs). f (xs ! k))"
  proof (cases "m \<le> length xs")
    case True
    then have "min n (length xs - m) + m = min (m + n) (length xs)"
      by auto
    then show ?thesis by simp
  next
    case False
    then show ?thesis by simp
  qed
  finally show ?thesis .
qed

lemma bytes_bitcount_range:
  "bytes_bitcount v (Some (int sb, int eb))
     = (\<Sum>k = sb ..< min (eb + 1) (length v). byte_popcount (v ! k))"
proof (cases "sb < min (eb + 1) (length v)")
  case True
  then have a: "sb \<le> eb" "sb < length v"
    by auto
  show ?thesis
  proof (cases "eb < length v")
    case True
    then have "bytes_bitcount v (Some (int sb, int eb))
        = sum_list (map byte_popcount (take (eb - sb + 1) (drop sb v)))"
      using a by (simp add: bytes_bitcount_def Let_def nat_diff_distrib' nat_add_distrib)
    also have "\<dots> = (\<Sum>k = sb ..< min (eb + 1) (length v). byte_popcount (v ! k))"
      using a by (simp add: sum_list_take_drop)
    finally show ?thesis .
  next
    case False
    then have "bytes_bitcount v (Some (int sb, int eb))
        = sum_list (map byte_popcount (take (length v - sb) (drop sb v)))"
      using a
      by (simp add: bytes_bitcount_def Let_def nat_diff_distrib' nat_add_distrib of_nat_diff)
    also have "\<dots> = (\<Sum>k = sb ..< min (eb + 1) (length v). byte_popcount (v ! k))"
      using a False sum_list_take_drop [of byte_popcount "length v - sb" sb v]
      by (simp add: min_def)
    finally show ?thesis .
  qed
next
  case False
  then have "bytes_bitcount v (Some (int sb, int eb)) = 0"
    by (auto simp: bytes_bitcount_def Let_def)
  moreover have "{sb ..< min (eb + 1) (length v)} = {}"
    using False by auto
  ultimately show ?thesis
    by (simp only: sum.empty)
qed

lemma bytes_bitcount_bits:
  "bytes_bitcount v (Some (int sb, int eb))
     = (\<Sum>i = 8 * sb ..< 8 * (eb + 1). bytes_getbit v i)"
proof (cases "sb \<le> eb + 1")
  case True
  have "(\<Sum>k = sb ..< eb + 1. if k < length v then byte_popcount (v ! k) else 0)
      = (\<Sum>k = sb ..< min (eb + 1) (length v). byte_popcount (v ! k))"
    by (rule sum.mono_neutral_cong_right) auto
  then show ?thesis
    using blocks_sum [OF True, of v] by (simp add: bytes_bitcount_range)
next
  case False
  then show ?thesis
    by (simp add: bytes_bitcount_range)
qed

text \<open>
  For a range of non-negative bounds other than \<open>(0, 0)\<close>, the split returns what the
  reference returns whenever the fallback runs (\<open>end < 7\<close>) or the first aligned byte is
  at most one past the last (\<open>start_byte \<le> end_byte + 1\<close>).
\<close>

lemma naive_count_store:
  "0 \<le> start_bit \<Longrightarrow> naive_count store_client key start_bit end_bit st
     = Inr (\<Sum>i = nat start_bit ..< nat (end_bit + 1). bytes_getbit (value_of st key) i)"
  by (simp add: naive_count_def upto_xrange store_loop_xrange)

lemma get_count_split_correct:
  assumes "0 \<le> start_bit" and "start_bit \<le> end_bit"
    and "\<not> (start_bit = 0 \<and> end_bit = 0)"
    and "end_bit < 7 \<or> (start_bit + 7) div 8 \<le> (end_bit - 7) div 8 + 1"
  shows "get_count store_client key (Some start_bit) (Some end_bit) st
     = naive_count store_client key start_bit end_bit st"
proof (cases "end_bit < 7")
  case True
  then have "get_count store_client key (Some start_bit) (Some end_bit) st
      = getbit_loop (\<lambda>offset. getbit store_client key offset st)
          (xrange start_bit (end_bit + 1) 1) 0"
    using assms(1-3)
    by (auto simp: get_count_def py_not_def count_bits_def fallback_offsets_def)
  then show ?thesis
    by (simp add: naive_count_def upto_xrange)
next
  case False
  define sb where "sb = (start_bit + 7) div 8"
  define eb where "eb = (end_bit - 7) div 8"
  define v where "v = value_of st key"
  have order: "sb \<le> eb + 1"
    using assms(4) False by (simp add: sb_def eb_def)
  have bounds: "0 \<le> sb" "0 \<le> eb" "start_bit \<le> sb * 8" "(eb + 1) * 8 \<le> end_bit + 1"
    using assms(1) False by (simp_all add: sb_def eb_def)
  have conv: "convert_to_start_byte (Some start_bit) = Inr (Byte sb)"
    "convert_to_end_byte (Some end_bit) = Inr (Byte eb)"
    using assms(1) False by (simp_all add: sb_def eb_def)
  have lead: "getbit_loop (\<lambda>offset. getbit store_client key offset st)
        (leading_offsets start_bit sb) 0
      = Inr (\<Sum>i = nat start_bit ..< 8 * nat sb. bytes_getbit v i)"
    using assms(1) bounds(1)
    by (simp add: leading_offsets_def store_loop_xrange v_def nat_mult_distrib mult.commute)
  have inner: "bitcount store_client key (Some (sb, eb)) st
      = Inr (\<Sum>i = 8 * nat sb ..< 8 * (nat eb + 1). bytes_getbit v i)"
    using bytes_bitcount_bits [of v "nat sb" "nat eb"] bounds(1,2)
    by (simp add: store_client_def store_bitcount_def v_def)
  have trail: "getbit_loop (\<lambda>offset. getbit store_client key offset st)
        (trailing_offsets eb end_bit) t
      = Inr (t + (\<Sum>i = 8 * (nat eb + 1) ..< nat (end_bit + 1). bytes_getbit v i))" for t
  proof -
    have "0 \<le> (eb + 1) * 8" and "nat ((eb + 1) * 8) = 8 * (nat eb + 1)"
      using bounds(2) by (simp_all add: nat_mult_distrib nat_add_distrib)
    then show ?thesis
      by (simp add: trailing_offsets_def store_loop_xrange v_def)
  qed
  have split: "get_count store_client key (Some start_bit) (Some end_bit) st
      = Inr ((\<Sum>i = nat start_bit ..< 8 * nat sb. bytes_getbit v i)
           + (\<Sum>i = 8 * nat sb ..< 8 * (nat eb + 1). bytes_getbit v i)
           + (\<Sum>i = 8 * (nat eb + 1) ..< nat (end_bit + 1). bytes_getbit v i))"
    using assms(3)
    by (auto simp: get_count_def py_not_def conv count_bits_def lead inner trail
          simp del: convert_to_start_byte.simps convert_to_end_byte.simps)
  have le1: "nat start_bit \<le> 8 * nat sb"
    using bounds(1,3) assms(1) by (simp add: nat_le_iff)
  have le2: "8 * nat sb \<le> 8 * (nat eb + 1)"
    using order bounds(1,2) by (simp add: nat_le_iff)
  have le3: "8 * (nat eb + 1) \<le> nat (end_bit + 1)"
    using bounds(2,4) by (simp add: le_nat_iff)
  have "(\<Sum>i = nat start_bit ..< 8 * nat sb. bytes_getbit v i)
           + (\<Sum>i = 8 * nat sb ..< 8 * (nat eb + 1). bytes_getbit v i)
           + (\<Sum>i = 8 * (nat eb + 1) ..< nat (end_bit + 1). bytes_getbit v i)
      = (\<Sum>i = nat start_bit ..< nat (end_bit + 1). bytes_getbit v i)"
    using le1 le2 le3 by (simp add: sum.atLeastLessThan_concat)
  then show ?thesis
    using assms(1) by (simp add: split naive_count_store v_def)
qed

text \<open>
  The second condition fails exactly for the ranges that begin after the first bit of a
  byte and end before the last bit of the same byte: there \<open>start_byte = end_byte + 2\<close>.
\<close>

lemma div8_bounds: "8 * (x div 8) \<le> x \<and> x < 8 * (x div 8) + (8::int)"
  using div_mult_mod_eq [of x 8] pos_mod_bound [of 8 x] pos_mod_sign [of 8 x] by linarith

lemma inside_one_byte:
  assumes "start_bit div 8 = end_bit div 8" and "start_bit mod 8 \<noteq> 0"
    and "end_bit mod 8 \<noteq> (7::int)"
  shows "(start_bit + 7) div 8 = (end_bit - 7) div 8 + 2"
proof -
  define q where "q = start_bit div 8"
  define u where "u = (start_bit + 7) div 8"
  define w where "w = (end_bit - 7) div 8"
  have sm: "start_bit = 8 * q + start_bit mod 8"
    unfolding q_def by simp
  have em: "end_bit = 8 * q + end_bit mod 8"
    unfolding q_def assms(1) by simp
  have rb: "0 \<le> start_bit mod 8" "start_bit mod 8 < 8" "0 \<le> end_bit mod 8" "end_bit mod 8 < 8"
    by simp_all
  have s: "8 * q + 1 \<le> start_bit" "start_bit \<le> 8 * q + 7"
    using sm rb(1,2) assms(2) by linarith+
  have e: "8 * q \<le> end_bit" "end_bit \<le> 8 * q + 6"
    using em rb(3,4) assms(3) by linarith+
  have ub: "8 * u \<le> start_bit + 7" "start_bit + 7 < 8 * u + 8"
    using div8_bounds [of "start_bit + 7"] by (simp_all add: u_def)
  have wb: "8 * w \<le> end_bit - 7" "end_bit - 7 < 8 * w + 8"
    using div8_bounds [of "end_bit - 7"] by (simp_all add: w_def)
  have "u = q + 1"
    using s ub by linarith
  moreover have "w = q - 1"
    using e wb by linarith
  ultimately show ?thesis
    by (simp add: u_def w_def)
qed

lemma only_inside_one_byte:
  assumes "start_bit \<le> end_bit"
    and "\<not> (start_bit + 7) div 8 \<le> (end_bit - 7) div 8 + (1::int)"
  shows "start_bit div 8 = end_bit div 8 \<and> start_bit mod 8 \<noteq> 0 \<and> end_bit mod 8 \<noteq> 7"
proof -
  define u where "u = (start_bit + 7) div 8"
  define w where "w = (end_bit - 7) div 8"
  define q1 where "q1 = start_bit div 8"
  define q2 where "q2 = end_bit div 8"
  have uw: "w + 2 \<le> u"
    using assms(2) by (simp add: u_def w_def)
  have ub: "8 * u \<le> start_bit + 7"
    using div8_bounds [of "start_bit + 7"] by (simp add: u_def)
  have wb: "end_bit - 7 < 8 * w + 8"
    using div8_bounds [of "end_bit - 7"] by (simp add: w_def)
  have range: "8 * u - 7 \<le> start_bit" "end_bit \<le> 8 * u - 2"
    using uw ub wb by linarith+
  have b1: "8 * q1 \<le> start_bit" "start_bit < 8 * q1 + 8"
    using div8_bounds [of start_bit] by (simp_all add: q1_def)
  have b2: "8 * q2 \<le> end_bit" "end_bit < 8 * q2 + 8"
    using div8_bounds [of end_bit] by (simp_all add: q2_def)
  have q1: "q1 = u - 1"
    using range assms(1) b1 by linarith
  have q2: "q2 = u - 1"
    using range assms(1) b2 by linarith
  have m1: "start_bit mod 8 = start_bit - 8 * q1" and m2: "end_bit mod 8 = end_bit - 8 * q2"
    by (simp_all add: q1_def q2_def minus_mult_div_eq_mod)
  have "1 \<le> start_bit - 8 * (u - 1)" and "end_bit - 8 * (u - 1) \<le> 6"
    using range by (simp_all add: algebra_simps)
  then have "start_bit mod 8 \<noteq> 0" and "end_bit mod 8 \<noteq> 7"
    unfolding m1 m2 q1 q2 by simp_all
  then show ?thesis
    using q1 q2 by (simp add: q1_def q2_def)
qed

subsection \<open>What \<^verbatim>\<open>get_count\<close> returns\<close>

text \<open>
  C1. For every bitmap and all non-negative \<open>start \<le> end\<close>, \<^verbatim>\<open>get_count(start, end)\<close>
  computed by the split algorithm returns what the naive reference returns, the sum of
  \<^verbatim>\<open>getbit\<close> over every index of \<open>[start, end]\<close>.

  The code does not: when \<open>start\<close> is not byte-aligned and \<open>end\<close> lies in the same byte
  before its last bit, \<open>start_byte = end_byte + 2\<close>, the leading loop runs up to
  \<open>start_byte * 8\<close>, past \<open>end\<close>, and the trailing loop starts at \<open>(end_byte + 1) * 8\<close>,
  before \<open>start\<close>. On the two bytes \<open>00 01\<close> (only bit 15 set) \<^verbatim>\<open>get_count(9, 14)\<close> walks
  the offsets 9 to 15 and then 8 to 14 and returns 1, where bits 9 to 14 hold no set bit.
  On every other range of non-negative bounds, \<open>(0, 0)\<close> apart, the split is right
  (lemma \<open>get_count_split_correct\<close>).
\<close>

theorem get_count_inside_one_byte:
  "get_count store_client ''k'' (Some 9) (Some 14) (store_with ''k'' [0, 1]) = Inr 1
   \<and> naive_count store_client ''k'' 9 14 (store_with ''k'' [0, 1]) = Inr 0
   \<and> convert_to_start_byte (Some 9) = Inr (Byte 2)
   \<and> convert_to_end_byte (Some 14) = Inr (Byte 0)
   \<and> leading_offsets 9 2 = [9, 10, 11, 12, 13, 14, 15]
   \<and> trailing_offsets 0 14 = [8, 9, 10, 11, 12, 13, 14]"
  by (simp add: count_eval store_eval)

text \<open>
  With a negative \<open>start_bit\<close> the leading loop steps by \<open>-1\<close> from \<open>start_bit\<close> towards
  \<open>bit_floor\<close>, which is never below \<open>start_bit\<close>: it walks no offset. The trailing loop
  with a negative \<open>bit_ceiling\<close> likewise.
\<close>

lemma leading_offsets_reversed:
  "start_bit < 0 \<Longrightarrow> convert_to_start_byte (Some start_bit) = Inr (Byte sb)
     \<Longrightarrow> leading_offsets start_bit sb = []"
  by (auto simp: leading_offsets_def xrange_def xrange_len_def split: if_splits)

lemma trailing_offsets_reversed:
  "convert_to_end_byte (Some end_bit) = Inr (Byte eb) \<Longrightarrow> (eb + 1) * 8 < 0
     \<Longrightarrow> trailing_offsets eb end_bit = []"
  by (auto simp: trailing_offsets_def xrange_def xrange_len_def split: if_splits)

text \<open>
  C4. In \<^verbatim>\<open>get_count\<close>, when both conversions yield byte indices and \<open>start\<close> (respectively
  the ceiling \<open>(end_byte + 1) * 8\<close>) is negative, the per-bit loop over the leading region
  \<open>[start, start_byte * 8)\<close> (respectively the trailing region \<open>[(end_byte + 1) * 8, end]\<close>)
  reverses direction and still visits every bit of that region, so that the total is the
  sum of the leading region, the aligned interior and the trailing region.

  The code reverses the step but not the bounds, so the reversed loops visit nothing. For
  \<^verbatim>\<open>get_count(-23, -3)\<close> the leading region is the seven offsets \<open>-23\<close> to \<open>-17\<close> and the
  trailing region the six offsets \<open>-8\<close> to \<open>-3\<close>; both loops are empty and the result is the
  count of byte \<open>-2\<close> alone, whatever the client answers for single bits.
\<close>

theorem get_count_reversed_loops:
  "convert_to_start_byte (Some (-23)) = Inr (Byte (-2))
   \<and> convert_to_end_byte (Some (-3)) = Inr (Byte (-2))
   \<and> [-23 .. (-2) * 8 - 1] = [-23, -22, -21, -20, -19, -18, -17]
   \<and> leading_offsets (-23) (-2) = []
   \<and> [((-2) + 1) * 8 .. -3] = [-8, -7, -6, -5, -4, -3]
   \<and> trailing_offsets (-2) (-3) = []
   \<and> get_count cli key (Some (-23)) (Some (-3)) s = bitcount cli key (Some (-2, -2)) s"
  by (simp add: count_eval split: sum.splits)

text \<open>
  C5. For every bitmap, \<^verbatim>\<open>get_count\<close> with one or both bounds omitted returns the
  whole-bitmap count and never fails; in particular the call with exactly one bound
  omitted is total and returns the whole-bitmap count.

  That fails with one bound omitted and the other a non-zero integer: the conversion of
  the omitted bound raises \<^verbatim>\<open>TypeError\<close>.
\<close>

theorem get_count_one_bound_counterexample:
  "get_count store_client ''k'' (Some 5) None (store_with ''k'' [255]) = Inl TypeError
   \<and> bitcount store_client ''k'' None (store_with ''k'' [255]) = Inr 8"
  by (simp add: count_eval store_eval)

text \<open>
  C5, as the code has it. With both bounds omitted \<^verbatim>\<open>get_count\<close> is the client's
  whole-key count, which on the bit-array store always returns a number; with exactly one
  bound omitted it is that count when the other bound is 0, and raises \<^verbatim>\<open>TypeError\<close>
  when the other bound is any other integer.
\<close>

theorem get_count_omitted_bounds:
  "get_count cli key None None s = bitcount cli key None s
   \<and> get_count store_client key None None st = Inr (bytes_bitcount (value_of st key) None)
   \<and> get_count cli key (Some 0) None s = bitcount cli key None s
   \<and> get_count cli key None (Some 0) s = bitcount cli key None s
   \<and> (b \<noteq> 0 \<longrightarrow> get_count cli key (Some b) None s = Inl TypeError
                \<and> get_count cli key None (Some b) s = Inl TypeError)"
  by (simp add: get_count_def py_not_def store_client_def store_bitcount_def)

theorem get_count_omitted_bounds_witness:
  "(5::int) \<noteq> 0
   \<and> get_count store_client ''k'' None None (store_with ''k'' [255]) = Inr 8
   \<and> get_count store_client ''k'' (Some 0) None (store_with ''k'' [255]) = Inr 8
   \<and> get_count store_client ''k'' None (Some 0) (store_with ''k'' [255]) = Inr 8
   \<and> get_count store_client ''k'' (Some 5) None (store_with ''k'' [255]) = Inl TypeError
   \<and> get_count store_client ''k'' None (Some 5) (store_with ''k'' [255]) = Inl TypeError"
proof -
  have whole: "bitcount store_client ''k'' None (store_with ''k'' [255]) = Inr 8"
    by (simp add: store_eval upt_conv_Cons)
  show ?thesis
    using get_count_omitted_bounds
      [where cli = store_client and key = "''k''" and s = "store_with ''k'' [255]"
         and st = "store_with ''k'' [255]" and b = 5]
    by (simp add: whole)
qed

text \<open>
  C10. When both passed bounds are zero, as in \<^verbatim>\<open>get_count(0, 0)\<close>, \<^verbatim>\<open>get_count\<close> returns
  the count of the entire bitmap, not the count over the one-bit range \<open>[0, 0]\<close>: a zero
  bound is treated like an omitted one when deciding to delegate to the whole-key count.
  On the byte \<open>40\<close> (only bit 1 set) the call returns 1, and bit 0 is not set.
\<close>

theorem get_count_zero_bounds:
  "get_count cli key (Some 0) (Some 0) s = bitcount cli key None s
   \<and> get_count cli key (Some 0) (Some 0) s = get_count cli key None None s
   \<and> get_count cli key (Some 0) None s = get_count cli key None None s
   \<and> get_count cli key None (Some 0) s = get_count cli key None None s
   \<and> get_count store_client ''k'' (Some 0) (Some 0) (store_with ''k'' [64]) = Inr 1
   \<and> naive_count store_client ''k'' 0 0 (store_with ''k'' [64]) = Inr 0"
  by (simp add: count_eval store_eval)

section \<open>Keys\<close>

declare str_nat.simps [simp del]

lemma str_nat_not_Nil: "str_nat n \<noteq> []"
  by (subst str_nat.simps) simp

lemma str_int_not_Nil: "str_int i \<noteq> []"
  by (simp add: str_int_def str_nat_not_Nil)

lemmas key_defs =
  MonthEvents_def WeekEvents_def DayEvents_def HourEvents_def Attributes_def prefix_key_def
  BitOperation_key_def

lemmas bit_op_defs =
  BitOperation_def bit_op_and_def bit_op_or_def bit_op_xor_def bit_op_not_def
  BitOpAnd_def BitOpOr_def BitOpXor_def BitOpNot_def

text \<open>
  C8. For every prefix, divider, name and coordinate the store key is a function of the
  inputs that matches the templates: event buckets are prefix, \<open>ev\<close>, name and period
  token joined by the divider, with the tokens \<open>year-month\<close>, \<open>Wyear-week\<close>,
  \<open>year-month-day\<close> and \<open>year-month-day-hour\<close>; attributes are prefix, \<open>at\<close> and name joined
  by the divider; derived compositions are prefix, \<open>bitop\<close>, the operation name and the
  operand keys in order, joined by \<open>-\<close>. Handles built from equal inputs therefore have
  the same key. The operation names are \<open>AND\<close>, \<open>OR\<close>, \<open>XOR\<close> and \<open>Not\<close>.
\<close>

theorem redis_key_templates:
  "redis_key (MonthEvents name y m p d)
     = p @ d @ ''ev'' @ d @ name @ d @ str_int y @ ''-'' @ str_int m
   \<and> redis_key (WeekEvents name y w p d)
     = p @ d @ ''ev'' @ d @ name @ d @ ''W'' @ str_int y @ ''-'' @ str_int w
   \<and> redis_key (DayEvents name y m da p d)
     = p @ d @ ''ev'' @ d @ name @ d @ str_int y @ ''-'' @ str_int m @ ''-'' @ str_int da
   \<and> redis_key (HourEvents name y m da h p d)
     = p @ d @ ''ev'' @ d @ name @ d
         @ str_int y @ ''-'' @ str_int m @ ''-'' @ str_int da @ ''-'' @ str_int h
   \<and> redis_key (Attributes name p d) = p @ d @ ''at'' @ d @ name
   \<and> BitOperation_key op_name p d events
     = p @ d @ ''bitop'' @ d @ op_name @ d @ join ''-'' (map redis_key events)
   \<and> bit_op_and self events
     = BitOperation ''AND'' (prefix self) (divider self) (redis_client self) (temp_ttl self) events
   \<and> bit_op_or self events
     = BitOperation ''OR'' (prefix self) (divider self) (redis_client self) (temp_ttl self) events
   \<and> bit_op_xor self events
     = BitOperation ''XOR'' (prefix self) (divider self) (redis_client self) (temp_ttl self) events
   \<and> bit_op_not self [ev]
     = BitOperation ''Not'' (prefix self) (divider self) (redis_client self) (temp_ttl self) [ev]
   \<and> (fst (BitOperation op_name p d cli ttl events s) = Inr b
        \<longrightarrow> redis_key b = BitOperation_key op_name p d events)"
proof -
  have derived: "fst (BitOperation op_name p d cli ttl events s) = Inr b
        \<longrightarrow> redis_key b = BitOperation_key op_name p d events"
    by (auto simp: BitOperation_def Let_def split: prod.splits sum.splits)
  have ops: "bit_op_and self events
     = BitOperation ''AND'' (prefix self) (divider self) (redis_client self) (temp_ttl self) events"
    "bit_op_or self events
     = BitOperation ''OR'' (prefix self) (divider self) (redis_client self) (temp_ttl self) events"
    "bit_op_xor self events
     = BitOperation ''XOR'' (prefix self) (divider self) (redis_client self) (temp_ttl self) events"
    "bit_op_not self [ev]
     = BitOperation ''Not'' (prefix self) (divider self) (redis_client self) (temp_ttl self) [ev]"
    by (auto simp: bit_op_and_def bit_op_or_def bit_op_xor_def bit_op_not_def
          BitOpAnd_def BitOpOr_def BitOpXor_def BitOpNot_def)
  show ?thesis
    using derived ops by (simp add: key_defs str_int_not_Nil)
qed

lemma str_int_examples:
  "str_int 2012 = ''2012''" "str_int 10 = ''10''" "str_int 23 = ''23''" "str_int 13 = ''13''"
  "str_int 48 = ''48''"
  by (simp_all add: str_int_def str_nat.simps digit_char_def)

lemma BitOperation_recorded:
  "BitOperation ''AND'' ''trackist'' '':'' recording_client 60
       [Bitmap ''trackist:ev:active:2012-10'', Bitmap ''trackist:at:paid_user''] []
     = (Inr (Bitmap ''trackist:bitop:AND:trackist:ev:active:2012-10-trackist:at:paid_user''),
        [BITOP ''AND'' ''trackist:bitop:AND:trackist:ev:active:2012-10-trackist:at:paid_user''
           [''trackist:ev:active:2012-10'', ''trackist:at:paid_user''],
         EXPIRE ''trackist:bitop:AND:trackist:ev:active:2012-10-trackist:at:paid_user'' 60])"
  by (simp add: BitOperation_def BitOperation_key_def recording_client_def Let_def)

theorem redis_key_templates_witness:
  "redis_key (MonthEvents ''active'' 2012 10 ''trackist'' '':'') = ''trackist:ev:active:2012-10''
   \<and> redis_key (WeekEvents ''active'' 2012 48 ''trackist'' '':'') = ''trackist:ev:active:W2012-48''
   \<and> redis_key (DayEvents ''active'' 2012 10 23 ''trackist'' '':'')
       = ''trackist:ev:active:2012-10-23''
   \<and> redis_key (HourEvents ''active'' 2012 10 23 13 ''trackist'' '':'')
       = ''trackist:ev:active:2012-10-23-13''
   \<and> redis_key (Attributes ''active'' ''trackist'' '':'') = ''trackist:at:active''
   \<and> fst (BitOperation ''AND'' ''trackist'' '':'' recording_client 60
         [Bitmap ''trackist:ev:active:2012-10'', Bitmap ''trackist:at:paid_user''] [])
       = Inr (Bitmap ''trackist:bitop:AND:trackist:ev:active:2012-10-trackist:at:paid_user'')
   \<and> BitOperation_key ''AND'' ''trackist'' '':''
         [Bitmap ''trackist:ev:active:2012-10'', Bitmap ''trackist:at:paid_user'']
       = ''trackist:bitop:AND:trackist:ev:active:2012-10-trackist:at:paid_user''"
proof -
  let ?evs = "[Bitmap ''trackist:ev:active:2012-10'', Bitmap ''trackist:at:paid_user'']"
  let ?K = "''trackist:bitop:AND:trackist:ev:active:2012-10-trackist:at:paid_user''"
  note t = redis_key_templates
    [where name = "''active''" and y = 2012 and m = 10 and w = 48 and da = 23 and h = 13
       and p = "''trackist''" and d = "'':''" and op_name = "''AND''" and events = ?evs
       and cli = recording_client and ttl = 60 and s = "[]" and b = "Bitmap ?K"]
  have made: "fst (BitOperation ''AND'' ''trackist'' '':'' recording_client 60 ?evs []) = Inr (Bitmap ?K)"
    by (simp add: BitOperation_recorded)
  have derived: "redis_key (Bitmap ?K) = BitOperation_key ''AND'' ''trackist'' '':'' ?evs"
    using t made by blast
  have k1: "redis_key (MonthEvents ''active'' 2012 10 ''trackist'' '':'') = ''trackist:ev:active:2012-10''"
    using t [THEN conjunct1] by (simp add: str_int_examples)
  have k2: "redis_key (WeekEvents ''active'' 2012 48 ''trackist'' '':'') = ''trackist:ev:active:W2012-48''"
    using t [THEN conjunct2, THEN conjunct1] by (simp add: str_int_examples)
  have k3: "redis_key (DayEvents ''active'' 2012 10 23 ''trackist'' '':'') = ''trackist:ev:active:2012-10-23''"
    using t [THEN conjunct2, THEN conjunct2, THEN conjunct1] by (simp add: str_int_examples)
  have k4: "redis_key (HourEvents ''active'' 2012 10 23 13 ''trackist'' '':'') = ''trackist:ev:active:2012-10-23-13''"
    using t [THEN conjunct2, THEN conjunct2, THEN conjunct2, THEN conjunct1]
    by (simp add: str_int_examples)
  have k5: "redis_key (Attributes ''active'' ''trackist'' '':'') = ''trackist:at:active''"
    using t [THEN conjunct2, THEN conjunct2, THEN conjunct2, THEN conjunct2, THEN conjunct1]
    by simp
  show ?thesis
    using made derived k1 k2 k3 k4 k5 by simp
qed

section \<open>Bit operations\<close>

text \<open>
  C6. If NOT is invoked with more than one operand, or AND, OR or XOR with no operand, the
  operation fails with an invalid-operand-count condition before any store operation is
  issued, and the store state is unchanged.

  That fails for AND, OR and XOR: called with no operand on a client that records its
  calls, \<^verbatim>\<open>bit_op_and\<close> returns a handle, having sent \<^verbatim>\<open>bitop\<close> and \<^verbatim>\<open>expire\<close>.
\<close>

theorem bit_op_and_no_operands_counterexample:
  "bit_op_and (Bitmapist_init recording_client None None None) [] []
     = (Inr (Bitmap ''trackist:bitop:AND:''),
        [BITOP ''AND'' ''trackist:bitop:AND:'' [], EXPIRE ''trackist:bitop:AND:'' 60])"
  by (simp add: bit_op_defs BitOperation_key_def Bitmapist_init_def recording_client_def Let_def)

text \<open>
  C6, as the code has it. \<^verbatim>\<open>bit_op_not\<close> called with a number of operands other than one
  raises \<^verbatim>\<open>TypeError\<close> when the call is bound, before any store operation, and the state
  is unchanged. \<^verbatim>\<open>bit_op_and\<close>, \<^verbatim>\<open>bit_op_or\<close> and \<^verbatim>\<open>bit_op_xor\<close> check nothing: with no
  operand they send \<^verbatim>\<open>bitop\<close> with no source key for the key
  \<open>prefix divider bitop divider OP divider\<close>, and \<^verbatim>\<open>expire\<close> when that was accepted; a
  failure is the client's. The bit-array store rejects the call and stays unchanged.
\<close>

theorem operand_count_handling:
  "(length args \<noteq> 1 \<longrightarrow> bit_op_not self args s = (Inl TypeError, s))
   \<and> bit_op_and self [] s
       = BitOperation ''AND'' (prefix self) (divider self) (redis_client self) (temp_ttl self) [] s
   \<and> bit_op_or self [] s
       = BitOperation ''OR'' (prefix self) (divider self) (redis_client self) (temp_ttl self) [] s
   \<and> bit_op_xor self [] s
       = BitOperation ''XOR'' (prefix self) (divider self) (redis_client self) (temp_ttl self) [] s
   \<and> BitOperation op_name p d cli ttl [] s
       = (case bitop cli op_name (p @ d @ ''bitop'' @ d @ op_name @ d) [] s of
            (Inl e, s1) \<Rightarrow> (Inl e, s1)
          | (Inr u, s1) \<Rightarrow>
              (case expire cli (p @ d @ ''bitop'' @ d @ op_name @ d) ttl s1 of
                 (Inl e, s2) \<Rightarrow> (Inl e, s2)
               | (Inr u, s2) \<Rightarrow> (Inr (Bitmap (p @ d @ ''bitop'' @ d @ op_name @ d)), s2)))
   \<and> BitOperation op_name p d store_client ttl [] st = (Inl ResponseError, st)"
proof -
  have not_arity: "length args \<noteq> 1 \<longrightarrow> bit_op_not self args s = (Inl TypeError, s)"
    by (cases args; cases "tl args") (auto simp: bit_op_not_def)
  have and_none: "bit_op_and self [] s
       = BitOperation ''AND'' (prefix self) (divider self) (redis_client self) (temp_ttl self) [] s"
    by (simp add: bit_op_and_def BitOpAnd_def)
  have or_none: "bit_op_or self [] s
       = BitOperation ''OR'' (prefix self) (divider self) (redis_client self) (temp_ttl self) [] s"
    by (simp add: bit_op_or_def BitOpOr_def)
  have xor_none: "bit_op_xor self [] s
       = BitOperation ''XOR'' (prefix self) (divider self) (redis_client self) (temp_ttl self) [] s"
    by (simp add: bit_op_xor_def BitOpXor_def)
  have sent: "BitOperation op_name p d cli ttl [] s
       = (case bitop cli op_name (p @ d @ ''bitop'' @ d @ op_name @ d) [] s of
            (Inl e, s1) \<Rightarrow> (Inl e, s1)
          | (Inr u, s1) \<Rightarrow>
              (case expire cli (p @ d @ ''bitop'' @ d @ op_name @ d) ttl s1 of
                 (Inl e, s2) \<Rightarrow> (Inl e, s2)
               | (Inr u, s2) \<Rightarrow> (Inr (Bitmap (p @ d @ ''bitop'' @ d @ op_name @ d)), s2)))"
    by (simp add: BitOperation_def BitOperation_key_def Let_def
          cong: prod.case_cong sum.case_cong)
  have rejected: "BitOperation op_name p d store_client ttl [] st = (Inl ResponseError, st)"
    by (simp add: BitOperation_def store_client_def store_bitop_def bitop_result_def)
  show ?thesis
    by (intro conjI not_arity and_none or_none xor_none sent rejected)
qed

theorem operand_count_handling_witness:
  "length [Bitmap ''a'', Bitmap ''b''] \<noteq> 1
   \<and> bit_op_not (Bitmapist_init recording_client None None None) [Bitmap ''a'', Bitmap ''b''] []
       = (Inl TypeError, [])
   \<and> bit_op_or (Bitmapist_init recording_client None None None) [] []
       = (Inr (Bitmap ''trackist:bitop:OR:''),
          [BITOP ''OR'' ''trackist:bitop:OR:'' [], EXPIRE ''trackist:bitop:OR:'' 60])
   \<and> BitOperation ''OR'' ''trackist'' '':'' store_client 60 [] empty_store
       = (Inl ResponseError, empty_store)"
proof -
  let ?rec = "Bitmapist_init recording_client None None None"
  note t = operand_count_handling
    [where self = ?rec and args = "[Bitmap ''a'', Bitmap ''b'']" and s = "[]"
       and op_name = "''OR''" and p = "''trackist''" and d = "'':''"
       and cli = recording_client and ttl = 60 and st = empty_store]
  have two: "length [Bitmap ''a'', Bitmap ''b''] \<noteq> 1"
    by simp
  have a: "bit_op_not ?rec [Bitmap ''a'', Bitmap ''b''] [] = (Inl TypeError, [])"
    using t [THEN conjunct1] two by blast
  have b1: "bit_op_or ?rec [] []
       = BitOperation ''OR'' (prefix ?rec) (divider ?rec) (redis_client ?rec) (temp_ttl ?rec) [] []"
    using t by blast
  have b2: "BitOperation ''OR'' ''trackist'' '':'' recording_client 60 [] []
       = (Inr (Bitmap ''trackist:bitop:OR:''),
          [BITOP ''OR'' ''trackist:bitop:OR:'' [], EXPIRE ''trackist:bitop:OR:'' 60])"
    using t [THEN conjunct2, THEN conjunct2, THEN conjunct2, THEN conjunct2, THEN conjunct1]
    by (simp add: recording_client_def)
  have b: "bit_op_or ?rec [] []
       = (Inr (Bitmap ''trackist:bitop:OR:''),
          [BITOP ''OR'' ''trackist:bitop:OR:'' [], EXPIRE ''trackist:bitop:OR:'' 60])"
    using b1 b2 by (simp add: Bitmapist_init_def)
  have c: "BitOperation ''OR'' ''trackist'' '':'' store_client 60 [] empty_store
       = (Inl ResponseError, empty_store)"
    using t by blast
  show ?thesis
    by (intro conjI two a b c)
qed

section \<open>Marking attributes\<close>

lemma fst_store_execute_Cons:
  "fst (store_execute (c # cs) s)
     = (case fst (store_command c s) of
          Inl e \<Rightarrow> Inl e
        | Inr u \<Rightarrow> fst (store_execute cs (snd (store_command c s))))"
  by (simp add: case_prod_beta)

lemma snd_store_execute_Cons:
  "snd (store_execute (c # cs) s) = snd (store_execute cs (snd (store_command c s)))"
  by (simp add: case_prod_beta)

lemma store_execute_setbits:
  "\<forall>u \<in> set uuids. 0 \<le> u \<Longrightarrow> v = 0 \<or> v = 1
     \<Longrightarrow> fst (store_execute (map (\<lambda>u. SETBIT key u v) uuids) st) = Inr ()"
proof (induction uuids arbitrary: st)
  case Nil
  then show ?case by simp
next
  case (Cons u uuids)
  have "fst (store_setbit key u v st) = Inr ()"
    using Cons.prems by (auto simp: store_setbit_def)
  moreover have "fst (store_execute (map (\<lambda>u. SETBIT key u v) uuids) (snd (store_setbit key u v st))) = Inr ()"
    using Cons.prems by (intro Cons.IH) auto
  ultimately show ?case
    by (simp add: fst_store_execute_Cons del: store_execute.simps)
qed

text \<open>
  C7. Every attribute mark, single or bulk, with a mark value outside \<open>{0, 1}\<close> raises the
  invalid-mark-value error (\<^verbatim>\<open>ValueError\<close>) before any store write is issued, so that
  every targeted bitmap is left unchanged; for the mark values 0 and 1 no such error is
  raised: the call is the client's \<^verbatim>\<open>setbit\<close>, or the pipeline of one \<^verbatim>\<open>setbit\<close> for each
  identity, which the bit-array store accepts for identities that are not negative.
\<close>

theorem mark_attribute_mark_value:
  "(mark_as \<noteq> 0 \<and> mark_as \<noteq> 1 \<longrightarrow>
       mark_attribute self name uuid mark_as s = (Inl ValueError, s)
     \<and> mark_attribute_multi self name uuids mark_as s = (Inl ValueError, s))
   \<and> (mark_as = 0 \<or> mark_as = 1 \<longrightarrow>
       mark_attribute self name (Single u) mark_as s
         = setbit (redis_client self) (redis_key (get_attribute self name)) u mark_as s
     \<and> mark_attribute self name (Multi uuids) mark_as s
         = execute (redis_client self) False
             (map (\<lambda>id. SETBIT (redis_key (get_attribute self name)) id mark_as) uuids) s
     \<and> mark_attribute_multi self name uuids mark_as s
         = execute (redis_client self) False
             (map (\<lambda>id. SETBIT (redis_key (get_attribute self name)) id mark_as) uuids) s
     \<and> (0 \<le> u \<longrightarrow>
          fst (mark_attribute \<lparr>redis_client = store_client, prefix = p, divider = d, temp_ttl = t\<rparr>
                 name (Single u) mark_as st) = Inr ())
     \<and> ((\<forall>id \<in> set uuids. 0 \<le> id) \<longrightarrow>
          fst (mark_attribute \<lparr>redis_client = store_client, prefix = p, divider = d, temp_ttl = t\<rparr>
                 name (Multi uuids) mark_as st) = Inr ()))"
  using store_execute_setbits
    [of uuids mark_as
        "redis_key (get_attribute \<lparr>redis_client = store_client, prefix = p, divider = d, temp_ttl = t\<rparr> name)"
        st]
  by (auto simp: mark_attribute_def mark_attribute_multi_def Let_def store_client_def
        store_setbit_def)

theorem mark_attribute_mark_value_witness:
  "(4::int) \<noteq> 0 \<and> (4::int) \<noteq> 1
   \<and> mark_attribute (Bitmapist_init recording_client None None None) ''active'' (Single 123) 4 []
       = (Inl ValueError, [])
   \<and> mark_attribute (Bitmapist_init recording_client None None None) ''active''
         (Multi [123, 23232]) 4 []
       = (Inl ValueError, [])
   \<and> mark_attribute_multi (Bitmapist_init recording_client None None None) ''active''
         [123, 23232] 4 []
       = (Inl ValueError, [])
   \<and> mark_attribute (Bitmapist_init recording_client None None None) ''active'' (Single 123) 1 []
       = (Inr (), [SETBIT ''trackist:at:active'' 123 1])
   \<and> mark_attribute (Bitmapist_init recording_client None None None) ''active''
         (Multi [123, 23232]) 1 []
       = (Inr (), [SETBIT ''trackist:at:active'' 123 1, SETBIT ''trackist:at:active'' 23232 1])
   \<and> fst (mark_attribute (Bitmapist_init store_client None None None) ''active''
         (Single 123) 1 empty_store) = Inr ()
   \<and> fst (mark_attribute (Bitmapist_init store_client None None None) ''active''
         (Multi [123, 23232]) 1 empty_store) = Inr ()"
proof -
  let ?rec = "Bitmapist_init recording_client None None None"
  have four: "(4::int) \<noteq> 0 \<and> (4::int) \<noteq> 1"
    by simp
  have one: "(1::int) = 0 \<or> (1::int) = 1"
    by simp
  have ids: "\<forall>id \<in> set [123, 23232 :: int]. 0 \<le> id"
    by simp
  have key: "redis_key (get_attribute ?rec ''active'') = ''trackist:at:active''"
    by (simp add: get_attribute_def Attributes_def prefix_key_def Bitmapist_init_def)
  have sto: "Bitmapist_init store_client None None None
      = \<lparr>redis_client = store_client, prefix = ''trackist'', divider = '':'', temp_ttl = 60\<rparr>"
    by (simp add: Bitmapist_init_def)
  note bad1 = mark_attribute_mark_value
    [where mark_as = 4 and self = ?rec and name = "''active''" and uuid = "Single 123"
       and uuids = "[123, 23232]" and s = "[]" and u = 123 and p = "''trackist''"
       and d = "'':''" and t = 60 and st = empty_store, THEN conjunct1, rule_format, OF four]
  note bad2 = mark_attribute_mark_value
    [where mark_as = 4 and self = ?rec and name = "''active''" and uuid = "Multi [123, 23232]"
       and uuids = "[123, 23232]" and s = "[]" and u = 123 and p = "''trackist''"
       and d = "'':''" and t = 60 and st = empty_store, THEN conjunct1, rule_format, OF four]
  note good = mark_attribute_mark_value
    [where mark_as = 1 and self = ?rec and name = "''active''" and uuid = "Single 123"
       and uuids = "[123, 23232]" and s = "[]" and u = 123 and p = "''trackist''"
       and d = "'':''" and t = 60 and st = empty_store, THEN conjunct2, rule_format, OF one]
  have g1: "mark_attribute ?rec ''active'' (Single 123) 1 []
       = (Inr (), [SETBIT ''trackist:at:active'' 123 1])"
    using good [THEN conjunct1] by (simp add: key) (simp add: Bitmapist_init_def recording_client_def)
  have g2: "mark_attribute ?rec ''active'' (Multi [123, 23232]) 1 []
       = (Inr (), [SETBIT ''trackist:at:active'' 123 1, SETBIT ''trackist:at:active'' 23232 1])"
    using good [THEN conjunct2, THEN conjunct1]
    by (simp add: key) (simp add: Bitmapist_init_def recording_client_def)
  have g3: "fst (mark_attribute (Bitmapist_init store_client None None None) ''active''
         (Single 123) 1 empty_store) = Inr ()"
    using good [THEN conjunct2, THEN conjunct2, THEN conjunct2, THEN conjunct1] sto by simp
  have g4: "fst (mark_attribute (Bitmapist_init store_client None None None) ''active''
         (Multi [123, 23232]) 1 empty_store) = Inr ()"
    using good [THEN conjunct2, THEN conjunct2, THEN conjunct2, THEN conjunct2] ids sto
    by simp
  show ?thesis
    using four bad1 bad2 g1 g2 g3 g4 by simp
qed

section \<open>Marking events\<close>

subsection \<open>Decimal strings\<close>

lemma digit_char_code: "of_char (digit_char n) = (48 + n mod 10 :: nat)"
proof -
  have "k < 10 \<Longrightarrow> of_char (''0123456789'' ! k) = (48 + k :: nat)" for k
    by (simp add: eval_nat_numeral less_Suc_eq) (elim disjE; simp)
  then show ?thesis
    by (simp add: digit_char_def)
qed

lemma digit_char_eq_iff: "digit_char a = digit_char b \<longleftrightarrow> a mod 10 = b mod 10"
proof
  assume "digit_char a = digit_char b"
  then have "(of_char (digit_char a) :: nat) = of_char (digit_char b)"
    by simp
  then show "a mod 10 = b mod 10"
    by (simp add: digit_char_code)
next
  assume "a mod 10 = b mod 10"
  then show "digit_char a = digit_char b"
    by (simp add: digit_char_def)
qed

lemma digit_char_not_sep: "digit_char n \<noteq> CHR ''-''" "digit_char n \<noteq> CHR ''W''"
proof -
  have "(of_char (digit_char n) :: nat) \<noteq> of_char CHR ''-''"
    unfolding digit_char_code by simp
  then show "digit_char n \<noteq> CHR ''-''" by auto
  have "(of_char (digit_char n) :: nat) \<noteq> of_char CHR ''W''"
    unfolding digit_char_code by simp
  then show "digit_char n \<noteq> CHR ''W''" by auto
qed

lemma digit_char_in: "digit_char n \<in> set ''0123456789''"
  unfolding digit_char_def by (rule nth_mem) simp

lemma str_nat_digits: "set (str_nat n) \<subseteq> set ''0123456789''"
proof (induction n rule: str_nat.induct)
  case (1 n)
  show ?case
  proof (cases "n < 10")
    case True
    then show ?thesis
      using digit_char_in [of n] by (subst str_nat.simps) simp
  next
    case False
    then show ?thesis
      using "1" digit_char_in [of n] by (subst str_nat.simps) simp
  qed
qed

lemma str_nat_inj: "str_nat a = str_nat b \<Longrightarrow> a = b"
proof (induction a arbitrary: b rule: str_nat.induct)
  case (1 a)
  have nonempty: "str_nat k \<noteq> []" for k
    by (subst str_nat.simps) simp
  show ?case
  proof (cases "a < 10")
    case a: True
    show ?thesis
    proof (cases "b < 10")
      case True
      with a "1.prems" have "digit_char a = digit_char b"
        by (simp add: str_nat.simps)
      with a True show ?thesis
        by (simp add: digit_char_eq_iff)
    next
      case False
      with a "1.prems" have "[digit_char a] = str_nat (b div 10) @ [digit_char b]"
        by (simp add: str_nat.simps [of a] str_nat.simps [of b])
      then show ?thesis
        using nonempty [of "b div 10"] by simp
    qed
  next
    case a: False
    show ?thesis
    proof (cases "b < 10")
      case True
      with a "1.prems" have "str_nat (a div 10) @ [digit_char a] = [digit_char b]"
        by (simp add: str_nat.simps [of a] str_nat.simps [of b])
      then show ?thesis
        using nonempty [of "a div 10"] by simp
    next
      case False
      with a "1.prems" have "str_nat (a div 10) @ [digit_char a] = str_nat (b div 10) @ [digit_char b]"
        by (simp add: str_nat.simps [of a] str_nat.simps [of b])
      then have "str_nat (a div 10) = str_nat (b div 10)" and "digit_char a = digit_char b"
        by simp_all
      then have "a div 10 = b div 10" and "a mod 10 = b mod 10"
        using "1.IH" [OF a] by (simp_all add: digit_char_eq_iff)
      then show ?thesis
        by (metis div_mult_mod_eq)
    qed
  qed
qed

lemma split_at_separator:
  "c \<notin> set x \<Longrightarrow> c \<notin> set y \<Longrightarrow> x @ c # xs = y @ c # ys \<Longrightarrow> x = y \<and> xs = ys"
proof (induction x arbitrary: y)
  case Nil
  then show ?case by (cases y) auto
next
  case (Cons a x)
  then show ?case by (cases y) auto
qed

subsection \<open>Bits of the store\<close>

lemma div_mod_8_eq: "m div 8 = n div 8 \<Longrightarrow> m mod 8 = n mod 8 \<Longrightarrow> m = (n::nat)"
  by (metis div_mult_mod_eq)

lemma byte_getbit_set_bit:
  "k < 8 \<Longrightarrow> j < 8 \<Longrightarrow> byte_getbit (set_bit (7 - j) w) k = (if k = j then 1 else byte_getbit w k)"
  by (auto simp: byte_getbit_def bit_set_bit_iff)

lemma byte_getbit_unset_bit:
  "k < 8 \<Longrightarrow> j < 8 \<Longrightarrow> byte_getbit (unset_bit (7 - j) w) k = (if k = j then 0 else byte_getbit w k)"
  by (auto simp: byte_getbit_def bit_unset_bit_iff)

lemma byte_getbit_zero: "byte_getbit 0 k = 0"
  by (simp add: byte_getbit_def)

lemma bytes_getbit_padded:
  "bytes_getbit (v @ replicate k 0) m = bytes_getbit v m"
  by (auto simp: bytes_getbit_def nth_append byte_getbit_zero)

text \<open>Writing one bit changes that bit and no other.\<close>

lemma bytes_getbit_setbit:
  "bytes_getbit (bytes_setbit v n b) m
     = (if m = n then (if b then 1 else 0) else bytes_getbit v m)"
proof -
  define padded where "padded = v @ replicate (Suc (n div 8) - length v) 0"
  have len: "n div 8 < length padded"
    by (simp add: padded_def)
  have same: "bytes_getbit padded m = bytes_getbit v m" for m
    by (simp add: padded_def bytes_getbit_padded)
  have upd: "bytes_setbit v n b = padded[n div 8 :=
           (if b then set_bit (7 - n mod 8) (padded ! (n div 8))
            else unset_bit (7 - n mod 8) (padded ! (n div 8)))]"
    by (simp add: bytes_setbit_def padded_def Let_def)
  show ?thesis
  proof (cases "m div 8 = n div 8")
    case True
    then have "bytes_getbit (bytes_setbit v n b) m
        = (if m mod 8 = n mod 8 then (if b then 1 else 0) else bytes_getbit padded m)"
      using len by (simp add: upd bytes_getbit_def byte_getbit_set_bit byte_getbit_unset_bit)
    moreover have "m mod 8 = n mod 8 \<longleftrightarrow> m = n"
      using True div_mod_8_eq by blast
    ultimately show ?thesis
      by (simp add: same)
  next
    case False
    then have "bytes_getbit (bytes_setbit v n b) m = bytes_getbit padded m"
      by (auto simp: upd bytes_getbit_def)
    with False show ?thesis
      by (auto simp: same)
  qed
qed

lemma value_of_setbit:
  "0 \<le> u \<Longrightarrow> value_of (snd (store_setbit k u 1 st)) k'
     = (if k' = k then bytes_setbit (value_of st k) (nat u) True else value_of st k')"
  by (simp add: store_setbit_def value_of_def)

lemma value_of_expire: "0 < t \<Longrightarrow> value_of (snd (store_expire k t st)) k' = value_of st k'"
  by (simp add: store_expire_def value_of_def split: option.splits)

lemma fst_setbit: "0 \<le> u \<Longrightarrow> fst (store_setbit k u 1 st) = Inr ()"
  by (simp add: store_setbit_def)

lemma fst_expire: "fst (store_expire k t st) = Inr ()"
  by (simp add: store_expire_def split: option.splits)

text \<open>
  The pipeline of \<^verbatim>\<open>mark_event\<close> on the bit-array store: it succeeds, sets the bit of the
  identity in every bucket of the list, and leaves every other bit of the store as it was.
\<close>

lemma mark_commands_execute:
  assumes "0 \<le> uuid" and "\<forall>(obj, ttl) \<in> set objs. positive_ttl ttl"
  shows "fst (store_execute (mark_commands uuid objs) st) = Inr ()
    \<and> (\<forall>k m. bytes_getbit (value_of (snd (store_execute (mark_commands uuid objs) st)) k) m
         = (if k \<in> redis_key ` fst ` set objs \<and> m = nat uuid then 1
            else bytes_getbit (value_of st k) m))"
  using assms(2)
proof (induction objs arbitrary: st)
  case Nil
  then show ?case by simp
next
  case (Cons a objs)
  obtain obj ttl where a: "a = (obj, ttl)"
    by (cases a)
  define st1 where "st1 = snd (store_setbit (redis_key obj) uuid 1 st)"
  define st2 where "st2 = (case ttl of None \<Rightarrow> st1 | Some t \<Rightarrow> snd (store_expire (redis_key obj) t st1))"
  have ttl: "positive_ttl ttl" and rest: "\<forall>(obj, ttl) \<in> set objs. positive_ttl ttl"
    using Cons.prems by (auto simp: a)
  have v1: "bytes_getbit (value_of st1 k) m
      = (if k = redis_key obj \<and> m = nat uuid then 1 else bytes_getbit (value_of st k) m)" for k m
    using assms(1) by (simp add: st1_def value_of_setbit bytes_getbit_setbit)
  have v2: "value_of st2 k = value_of st1 k" for k
    using ttl by (cases ttl) (simp_all add: st2_def positive_ttl_def value_of_expire)
  have run_fst: "fst (store_execute (mark_commands uuid ((obj, ttl) # objs)) st)
      = fst (store_execute (mark_commands uuid objs) st2)"
    using assms(1)
    by (cases ttl)
       (simp_all add: st1_def st2_def fst_store_execute_Cons fst_setbit fst_expire
          del: store_execute.simps)
  have run_snd: "snd (store_execute (mark_commands uuid ((obj, ttl) # objs)) st)
      = snd (store_execute (mark_commands uuid objs) st2)"
    by (cases ttl)
       (simp_all add: st1_def st2_def snd_store_execute_Cons del: store_execute.simps)
  show ?case
    unfolding a
    using Cons.IH [OF rest, of st2]
    by (auto simp: run_fst run_snd v1 v2 simp del: mark_commands.simps store_execute.simps)
qed

lemma contains_store:
  "0 \<le> uuid \<Longrightarrow> contains store_client key uuid st
     = Inr (bytes_getbit (value_of st key) (nat uuid) \<noteq> 0)"
  by (simp add: contains_def store_client_def store_getbit_def)

subsection \<open>Period tokens and bucket keys\<close>

lemma str_int_nat: "str_int (int n) = str_nat n"
  by (simp add: str_int_def)

lemma dash_not_in_str_nat: "CHR ''-'' \<notin> set (str_nat n)"
  using str_nat_digits [of n] by auto

lemma W_not_in_str_nat: "CHR ''W'' \<notin> set (str_nat n)"
  using str_nat_digits [of n] by auto

lemma hd_str_nat: "hd (str_nat n @ xs) \<noteq> CHR ''W''"
  using W_not_in_str_nat [of n] str_nat_not_Nil [of n] by (cases "str_nat n") auto

lemma dashes_str_nat: "filter ((=) CHR ''-'') (str_nat n) = []"
  using dash_not_in_str_nat [of n] by (auto simp: filter_empty_conv)

text \<open>The keys the four methods compute, through the tokens.\<close>

lemma get_event_keys:
  "redis_key (get_month_event self name now) = event_key self name (month_token now)"
  "redis_key (get_week_event self name now) = event_key self name (week_token now)"
  "redis_key (get_day_event self name now) = event_key self name (day_token now)"
  "redis_key (get_hour_event self name now) = event_key self name (hour_token now)"
  by (simp_all add: get_month_event_def get_week_event_def get_day_event_def
        get_hour_event_def key_defs str_int_nat str_nat_not_Nil event_key_def
        month_token_def week_token_def day_token_def hour_token_def)

text \<open>A token determines the coordinates it was formatted from.\<close>

lemma two_fields_inj:
  "str_nat a @ CHR ''-'' # str_nat b = str_nat a' @ CHR ''-'' # str_nat b' \<Longrightarrow> a = a' \<and> b = b'"
  using split_at_separator [of "CHR ''-''" "str_nat a" "str_nat a'" "str_nat b" "str_nat b'"]
  by (auto simp: dash_not_in_str_nat dest: str_nat_inj)

lemma month_token_inj:
  "month_token a = month_token b \<Longrightarrow> (year a, month a) = (year b, month b)"
  by (auto simp: month_token_def dest: two_fields_inj)

lemma week_token_inj:
  "week_token a = week_token b
     \<Longrightarrow> (fst (isocalendar a), fst (snd (isocalendar a)))
          = (fst (isocalendar b), fst (snd (isocalendar b)))"
  by (auto simp: week_token_def dest: two_fields_inj)

lemma day_token_inj:
  assumes "day_token a = day_token b"
  shows "(year a, month a, day a) = (year b, month b, day b)"
proof -
  have "str_nat (year a) = str_nat (year b)
      \<and> str_nat (month a) @ CHR ''-'' # str_nat (day a)
        = str_nat (month b) @ CHR ''-'' # str_nat (day b)"
    using assms
      split_at_separator [of "CHR ''-''" "str_nat (year a)" "str_nat (year b)"
        "str_nat (month a) @ CHR ''-'' # str_nat (day a)"
        "str_nat (month b) @ CHR ''-'' # str_nat (day b)"]
    by (simp add: day_token_def dash_not_in_str_nat)
  then show ?thesis
    using two_fields_inj [of "month a" "day a" "month b" "day b"]
    by (auto dest: str_nat_inj)
qed

lemma hour_token_inj:
  assumes "hour_token a = hour_token b"
  shows "(year a, month a, day a, hour a) = (year b, month b, day b, hour b)"
proof -
  have first: "str_nat (year a) = str_nat (year b)
      \<and> str_nat (month a) @ CHR ''-'' # str_nat (day a) @ CHR ''-'' # str_nat (hour a)
        = str_nat (month b) @ CHR ''-'' # str_nat (day b) @ CHR ''-'' # str_nat (hour b)"
    using assms
      split_at_separator [of "CHR ''-''" "str_nat (year a)" "str_nat (year b)"
        "str_nat (month a) @ CHR ''-'' # str_nat (day a) @ CHR ''-'' # str_nat (hour a)"
        "str_nat (month b) @ CHR ''-'' # str_nat (day b) @ CHR ''-'' # str_nat (hour b)"]
    by (simp add: hour_token_def dash_not_in_str_nat)
  then have second: "str_nat (month a) = str_nat (month b)
      \<and> str_nat (day a) @ CHR ''-'' # str_nat (hour a)
        = str_nat (day b) @ CHR ''-'' # str_nat (hour b)"
    using split_at_separator [of "CHR ''-''" "str_nat (month a)" "str_nat (month b)"
        "str_nat (day a) @ CHR ''-'' # str_nat (hour a)"
        "str_nat (day b) @ CHR ''-'' # str_nat (hour b)"]
    by (simp add: dash_not_in_str_nat)
  show ?thesis
    using first second two_fields_inj [of "day a" "hour a" "day b" "hour b"]
    by (auto dest: str_nat_inj)
qed

text \<open>
  Tokens of different granularities differ: a week token starts with \<open>W\<close>, and month, day
  and hour tokens hold one, two and three dashes.
\<close>

lemma token_dashes:
  "length (filter ((=) CHR ''-'') (month_token a)) = 1"
  "length (filter ((=) CHR ''-'') (day_token a)) = 2"
  "length (filter ((=) CHR ''-'') (hour_token a)) = 3"
  by (simp_all add: month_token_def day_token_def hour_token_def dashes_str_nat)

lemma token_heads:
  "hd (month_token a) \<noteq> CHR ''W''" "hd (day_token a) \<noteq> CHR ''W''"
  "hd (hour_token a) \<noteq> CHR ''W''" "hd (week_token a) = CHR ''W''"
  by (simp_all add: month_token_def day_token_def hour_token_def week_token_def hd_str_nat)

lemma starts_with_W:
  "hd t = CHR ''W'' \<Longrightarrow> hd u \<noteq> CHR ''W'' \<Longrightarrow> t \<noteq> u"
  by auto

lemma week_token_differs:
  "week_token a \<noteq> month_token b" "week_token a \<noteq> day_token b" "week_token a \<noteq> hour_token b"
  by (rule starts_with_W, rule token_heads(4), rule token_heads)+

lemma dashes_differ:
  "length (filter ((=) CHR ''-'') s) \<noteq> length (filter ((=) CHR ''-'') t) \<Longrightarrow> s \<noteq> t"
  by blast

lemma tokens_differ:
  "month_token a \<noteq> day_token b" "month_token a \<noteq> hour_token b" "day_token a \<noteq> hour_token b"
  by (rule dashes_differ, simp add: token_dashes)+

lemma event_key_same_name:
  "event_key self name t1 = event_key self name t2 \<longleftrightarrow> t1 = t2"
  by (simp add: event_key_def)

text \<open>
  Tokens are written with digits, \<open>-\<close> and \<open>W\<close>. When the divider ends with any other
  character, the last occurrence of that character in a key is the end of the divider
  before the token, so the key determines the event name.
\<close>

lemma not_in_str_nat: "c \<notin> set ''0123456789-W'' \<Longrightarrow> c \<notin> set (str_nat n)"
  using str_nat_digits [of n] by auto

lemma not_in_token:
  assumes "c \<notin> set ''0123456789-W''"
  shows "c \<notin> set (month_token a)" "c \<notin> set (week_token a)"
    "c \<notin> set (day_token a)" "c \<notin> set (hour_token a)"
proof -
  have sep: "c \<noteq> CHR ''-''" "c \<noteq> CHR ''W''"
    using assms by auto
  show "c \<notin> set (month_token a)" "c \<notin> set (week_token a)"
    "c \<notin> set (day_token a)" "c \<notin> set (hour_token a)"
    using sep not_in_str_nat [OF assms]
    by (simp_all add: month_token_def week_token_def day_token_def hour_token_def)
qed

lemma split_at_last_separator:
  assumes "c \<notin> set xs" and "c \<notin> set ys" and "x @ c # xs = y @ c # ys"
  shows "x = y"
proof -
  have "rev xs @ c # rev x = rev ys @ c # rev y"
    using arg_cong [OF assms(3), of rev] by simp
  then have "rev x = rev y"
    using split_at_separator [of c "rev xs" "rev ys" "rev x" "rev y"] assms(1,2) by simp
  then show ?thesis
    by simp
qed

lemma event_key_other_name:
  assumes "divider self \<noteq> []" and "last (divider self) \<notin> set t1"
    and "last (divider self) \<notin> set t2"
    and "event_key self n1 t1 = event_key self n2 t2"
  shows "n1 = n2"
proof -
  obtain d c where d: "divider self = d @ [c]"
    using assms(1) by (metis append_butlast_last_id)
  have c: "c \<notin> set t1" "c \<notin> set t2"
    using assms(2,3) d by simp_all
  have "(n1 @ d) @ c # t1 = (n2 @ d) @ c # t2"
    using assms(4) by (simp add: event_key_def d)
  then have "n1 @ d = n2 @ d"
    by (rule split_at_last_separator [OF c])
  then show ?thesis
    by simp
qed

subsection \<open>\<^verbatim>\<open>mark_event\<close> on the bit-array store\<close>

text \<open>
  With all four granularities selected, the call succeeds; afterwards the identity is a
  member of the four buckets of the instant, and its membership of every other key is
  what it was before.
\<close>

lemma mark_event_store:
  assumes "redis_client self = store_client" and "0 \<le> uuid"
    and "positive_ttl month_ttl" and "positive_ttl week_ttl"
    and "positive_ttl day_ttl" and "positive_ttl hour_ttl"
    and "now = (case now_arg of None \<Rightarrow> utcnow | Some n \<Rightarrow> n)"
    and "st' = snd (mark_event self utcnow name uuid now_arg True True True True
                  month_ttl week_ttl day_ttl hour_ttl st)"
  shows "fst (mark_event self utcnow name uuid now_arg True True True True
                month_ttl week_ttl day_ttl hour_ttl st) = Inr ()
    \<and> (\<forall>k. contains store_client k uuid st'
          = (if k \<in> {event_key self name (month_token now), event_key self name (week_token now),
                      event_key self name (day_token now), event_key self name (hour_token now)}
             then Inr True else contains store_client k uuid st))"
proof -
  define objs where "objs = stat_objs self name now True True True True
      month_ttl week_ttl day_ttl hour_ttl"
  have run: "mark_event self utcnow name uuid now_arg True True True True
                month_ttl week_ttl day_ttl hour_ttl st
      = store_execute (mark_commands uuid objs) st"
    by (simp add: mark_event_def assms(1,7) objs_def store_client_def)
  have ttls: "\<forall>(obj, ttl) \<in> set objs. positive_ttl ttl"
    using assms(3-6) by (simp add: objs_def stat_objs_def)
  have keys: "redis_key ` fst ` set objs
      = {event_key self name (month_token now), event_key self name (week_token now),
         event_key self name (day_token now), event_key self name (hour_token now)}"
    by (simp add: objs_def stat_objs_def get_event_keys)
  note ex = mark_commands_execute [OF assms(2) ttls, of st]
  have bits: "bytes_getbit (value_of st' k) (nat uuid)
      = (if k \<in> redis_key ` fst ` set objs then 1
         else bytes_getbit (value_of st k) (nat uuid))" for k
    using ex by (simp add: assms(8) run)
  have "contains store_client k uuid st'
      = (if k \<in> redis_key ` fst ` set objs then Inr True else contains store_client k uuid st)" for k
    by (simp add: contains_store [OF assms(2)] bits)
  then show ?thesis
    using ex by (simp add: run keys)
qed

text \<open>
  C9. For every identity and timestamp, marking an event with all four granularities
  selected makes that identity a member of the hour, day, week and month buckets derived
  from that timestamp, and does not make it a member of the adjacent (previous) hour, day
  or week bucket, nor of any bucket of a different event name.

  The last part fails when the divider can be read as part of a token. With the divider
  \<open>-\<close>, the day bucket of event \<open>a\<close> on 2012-1-5 and the month bucket of event \<open>a-2012\<close> for
  month 5 of year 1 are the same key \<open>trackist-ev-a-2012-1-5\<close>.
\<close>

theorem mark_event_other_name_counterexample:
  "''a-2012'' \<noteq> ''a''
   \<and> contains store_client
         (redis_key (get_month_event (Bitmapist_init store_client None (Some ''-'') None) ''a-2012''
            \<lparr>year = 1, month = 5, day = 1, hour = 0, isocalendar = (1, 18, 2)\<rparr>))
         3 empty_store = Inr False
   \<and> contains store_client
         (redis_key (get_month_event (Bitmapist_init store_client None (Some ''-'') None) ''a-2012''
            \<lparr>year = 1, month = 5, day = 1, hour = 0, isocalendar = (1, 18, 2)\<rparr>))
         3
         (snd (mark_event (Bitmapist_init store_client None (Some ''-'') None)
                 \<lparr>year = 2012, month = 1, day = 5, hour = 3, isocalendar = (2012, 1, 4)\<rparr>
                 ''a'' 3
                 (Some \<lparr>year = 2012, month = 1, day = 5, hour = 3, isocalendar = (2012, 1, 4)\<rparr>)
                 True True True True None None None None empty_store))
       = Inr True"
proof -
  let ?self = "Bitmapist_init store_client None (Some ''-'') None"
  let ?now = "\<lparr>year = 2012, month = 1, day = 5, hour = 3, isocalendar = (2012, 1, 4)\<rparr>"
  let ?other = "\<lparr>year = 1, month = 5, day = 1, hour = 0, isocalendar = (1, 18, 2)\<rparr>"
  let ?st' = "snd (mark_event ?self ?now ''a'' 3 (Some ?now)
                 True True True True None None None None empty_store)"
  have same: "event_key ?self ''a-2012'' (month_token ?other)
      = event_key ?self ''a'' (day_token ?now)"
    by (simp add: event_key_def month_token_def day_token_def Bitmapist_init_def
          str_nat.simps digit_char_def)
  have cli: "redis_client ?self = store_client"
    by (simp add: Bitmapist_init_def)
  have before: "contains store_client (redis_key (get_month_event ?self ''a-2012'' ?other))
      3 empty_store = Inr False"
    by (simp add: contains_store empty_store_def value_of_def bytes_getbit_def)
  have u: "(0::int) \<le> 3"
    by simp
  have p: "positive_ttl None"
    by (simp add: positive_ttl_def)
  have n: "?now = (case Some ?now of None \<Rightarrow> ?now | Some n \<Rightarrow> n)"
    by simp
  note store = mark_event_store
    [where name = "''a''" and st = empty_store, OF cli u p p p p n refl]
  have written: "event_key ?self ''a'' (day_token ?now)
      \<in> {event_key ?self ''a'' (month_token ?now), event_key ?self ''a'' (week_token ?now),
         event_key ?self ''a'' (day_token ?now), event_key ?self ''a'' (hour_token ?now)}"
    by blast
  have "contains store_client (event_key ?self ''a'' (day_token ?now)) 3 ?st' = Inr True"
    using store [THEN conjunct2, THEN spec, of "event_key ?self ''a'' (day_token ?now)"] written
    by (simp only: if_True)
  then have after: "contains store_client (redis_key (get_month_event ?self ''a-2012'' ?other))
      3 ?st' = Inr True"
    unfolding get_event_keys same .
  have names: "''a-2012'' \<noteq> ''a''"
    by simp
  show ?thesis
    by (intro conjI names before after)
qed

text \<open>
  C9, as the code has it, on the bit-array store, for an identity that is not negative and
  times to live that are omitted or positive. The call succeeds and makes the identity a
  member of the hour, day, week and month buckets of the instant. Its membership of the
  hour (day, week, month) bucket of the same event at any instant with other hour (day,
  ISO week, month) coordinates, the previous one among them, is what it was before the
  call; so is its membership of every bucket of another event name, provided the divider
  ends with a character that is not a digit, \<open>-\<close> or \<open>W\<close>, as the default \<open>:\<close> does.
\<close>

theorem mark_event_membership:
  assumes "redis_client self = store_client" and "0 \<le> uuid"
    and "positive_ttl month_ttl" and "positive_ttl week_ttl"
    and "positive_ttl day_ttl" and "positive_ttl hour_ttl"
    and "now = (case now_arg of None \<Rightarrow> utcnow | Some n \<Rightarrow> n)"
    and "st' = snd (mark_event self utcnow name uuid now_arg True True True True
                  month_ttl week_ttl day_ttl hour_ttl st)"
  shows "fst (mark_event self utcnow name uuid now_arg True True True True
                month_ttl week_ttl day_ttl hour_ttl st) = Inr ()
    \<and> contains store_client (redis_key (get_hour_event self name now)) uuid st' = Inr True
    \<and> contains store_client (redis_key (get_day_event self name now)) uuid st' = Inr True
    \<and> contains store_client (redis_key (get_week_event self name now)) uuid st' = Inr True
    \<and> contains store_client (redis_key (get_month_event self name now)) uuid st' = Inr True
    \<and> ((year other, month other, day other, hour other)
          \<noteq> (year now, month now, day now, hour now) \<longrightarrow>
        contains store_client (redis_key (get_hour_event self name other)) uuid st'
          = contains store_client (redis_key (get_hour_event self name other)) uuid st)
    \<and> ((year other, month other, day other) \<noteq> (year now, month now, day now) \<longrightarrow>
        contains store_client (redis_key (get_day_event self name other)) uuid st'
          = contains store_client (redis_key (get_day_event self name other)) uuid st)
    \<and> ((fst (isocalendar other), fst (snd (isocalendar other)))
          \<noteq> (fst (isocalendar now), fst (snd (isocalendar now))) \<longrightarrow>
        contains store_client (redis_key (get_week_event self name other)) uuid st'
          = contains store_client (redis_key (get_week_event self name other)) uuid st)
    \<and> ((year other, month other) \<noteq> (year now, month now) \<longrightarrow>
        contains store_client (redis_key (get_month_event self name other)) uuid st'
          = contains store_client (redis_key (get_month_event self name other)) uuid st)
    \<and> (name' \<noteq> name \<and> divider self \<noteq> [] \<and> last (divider self) \<notin> set ''0123456789-W'' \<longrightarrow>
        contains store_client (redis_key (get_hour_event self name' other)) uuid st'
          = contains store_client (redis_key (get_hour_event self name' other)) uuid st
      \<and> contains store_client (redis_key (get_day_event self name' other)) uuid st'
          = contains store_client (redis_key (get_day_event self name' other)) uuid st
      \<and> contains store_client (redis_key (get_week_event self name' other)) uuid st'
          = contains store_client (redis_key (get_week_event self name' other)) uuid st
      \<and> contains store_client (redis_key (get_month_event self name' other)) uuid st'
          = contains store_client (redis_key (get_month_event self name' other)) uuid st)"
proof -
  let ?written = "{event_key self name (month_token now), event_key self name (week_token now),
      event_key self name (day_token now), event_key self name (hour_token now)}"
  note store = mark_event_store [OF assms]
  have ok: "fst (mark_event self utcnow name uuid now_arg True True True True
                month_ttl week_ttl day_ttl hour_ttl st) = Inr ()"
    using store by blast
  have inside: "k \<in> ?written \<Longrightarrow> contains store_client k uuid st' = Inr True" for k
    using store by simp
  have outside: "k \<notin> ?written
      \<Longrightarrow> contains store_client k uuid st' = contains store_client k uuid st" for k
    using store by simp
  have members:
    "contains store_client (redis_key (get_hour_event self name now)) uuid st' = Inr True"
    "contains store_client (redis_key (get_day_event self name now)) uuid st' = Inr True"
    "contains store_client (redis_key (get_week_event self name now)) uuid st' = Inr True"
    "contains store_client (redis_key (get_month_event self name now)) uuid st' = Inr True"
    by (rule inside, simp add: get_event_keys)+
  have hour_other: "(year other, month other, day other, hour other)
          \<noteq> (year now, month now, day now, hour now) \<longrightarrow>
        contains store_client (redis_key (get_hour_event self name other)) uuid st'
          = contains store_client (redis_key (get_hour_event self name other)) uuid st"
  proof
    assume diff: "(year other, month other, day other, hour other)
          \<noteq> (year now, month now, day now, hour now)"
    have "hour_token other \<noteq> hour_token now"
      using diff hour_token_inj [of other now] by blast
    then have "event_key self name (hour_token other) \<notin> ?written"
      using tokens_differ(2) [of now other] tokens_differ(3) [of now other]
        week_token_differs(3) [of now other]
      by (auto simp: event_key_same_name)
    then show "contains store_client (redis_key (get_hour_event self name other)) uuid st'
          = contains store_client (redis_key (get_hour_event self name other)) uuid st"
      unfolding get_event_keys by (rule outside)
  qed
  have day_other: "(year other, month other, day other) \<noteq> (year now, month now, day now) \<longrightarrow>
        contains store_client (redis_key (get_day_event self name other)) uuid st'
          = contains store_client (redis_key (get_day_event self name other)) uuid st"
  proof
    assume diff: "(year other, month other, day other) \<noteq> (year now, month now, day now)"
    have "day_token other \<noteq> day_token now"
      using diff day_token_inj [of other now] by blast
    then have "event_key self name (day_token other) \<notin> ?written"
      using tokens_differ(1) [of now other] tokens_differ(3) [of other now]
        week_token_differs(2) [of now other]
      by (auto simp: event_key_same_name)
    then show "contains store_client (redis_key (get_day_event self name other)) uuid st'
          = contains store_client (redis_key (get_day_event self name other)) uuid st"
      unfolding get_event_keys by (rule outside)
  qed
  have week_other: "(fst (isocalendar other), fst (snd (isocalendar other)))
          \<noteq> (fst (isocalendar now), fst (snd (isocalendar now))) \<longrightarrow>
        contains store_client (redis_key (get_week_event self name other)) uuid st'
          = contains store_client (redis_key (get_week_event self name other)) uuid st"
  proof
    assume diff: "(fst (isocalendar other), fst (snd (isocalendar other)))
          \<noteq> (fst (isocalendar now), fst (snd (isocalendar now)))"
    have "week_token other \<noteq> week_token now"
      using diff week_token_inj [of other now] by blast
    then have "event_key self name (week_token other) \<notin> ?written"
      using week_token_differs [of other now]
      by (simp add: event_key_same_name)
    then show "contains store_client (redis_key (get_week_event self name other)) uuid st'
          = contains store_client (redis_key (get_week_event self name other)) uuid st"
      unfolding get_event_keys by (rule outside)
  qed
  have month_other: "(year other, month other) \<noteq> (year now, month now) \<longrightarrow>
        contains store_client (redis_key (get_month_event self name other)) uuid st'
          = contains store_client (redis_key (get_month_event self name other)) uuid st"
  proof
    assume diff: "(year other, month other) \<noteq> (year now, month now)"
    have "month_token other \<noteq> month_token now"
      using diff month_token_inj [of other now] by blast
    then have "event_key self name (month_token other) \<notin> ?written"
      using tokens_differ(1) [of other now] tokens_differ(2) [of other now]
        week_token_differs(1) [of now other]
      by (auto simp: event_key_same_name)
    then show "contains store_client (redis_key (get_month_event self name other)) uuid st'
          = contains store_client (redis_key (get_month_event self name other)) uuid st"
      unfolding get_event_keys by (rule outside)
  qed
  have name_other: "name' \<noteq> name \<and> divider self \<noteq> []
        \<and> last (divider self) \<notin> set ''0123456789-W'' \<longrightarrow>
        contains store_client (redis_key (get_hour_event self name' other)) uuid st'
          = contains store_client (redis_key (get_hour_event self name' other)) uuid st
      \<and> contains store_client (redis_key (get_day_event self name' other)) uuid st'
          = contains store_client (redis_key (get_day_event self name' other)) uuid st
      \<and> contains store_client (redis_key (get_week_event self name' other)) uuid st'
          = contains store_client (redis_key (get_week_event self name' other)) uuid st
      \<and> contains store_client (redis_key (get_month_event self name' other)) uuid st'
          = contains store_client (redis_key (get_month_event self name' other)) uuid st"
  proof
    assume h: "name' \<noteq> name \<and> divider self \<noteq> []
        \<and> last (divider self) \<notin> set ''0123456789-W''"
    then have ne: "name' \<noteq> name" and d: "divider self \<noteq> []"
      and c: "last (divider self) \<notin> set ''0123456789-W''"
      by blast+
    have token: "last (divider self) \<notin> set t"
      if "t \<in> {month_token a, week_token a, day_token a, hour_token a}" for t a
      using that not_in_token [OF c, of a] by blast
    have "event_key self name' t \<notin> ?written"
      if "t \<in> {month_token other, week_token other, day_token other, hour_token other}" for t
    proof
      assume "event_key self name' t \<in> ?written"
      then obtain u where u: "u \<in> {month_token now, week_token now, day_token now, hour_token now}"
        and eq: "event_key self name' t = event_key self name u"
        by blast
      have "name' = name"
        using event_key_other_name [OF d token [OF that] token [OF u] eq] .
      with ne show False
        by simp
    qed
    then show "contains store_client (redis_key (get_hour_event self name' other)) uuid st'
          = contains store_client (redis_key (get_hour_event self name' other)) uuid st
      \<and> contains store_client (redis_key (get_day_event self name' other)) uuid st'
          = contains store_client (redis_key (get_day_event self name' other)) uuid st
      \<and> contains store_client (redis_key (get_week_event self name' other)) uuid st'
          = contains store_client (redis_key (get_week_event self name' other)) uuid st
      \<and> contains store_client (redis_key (get_month_event self name' other)) uuid st'
          = contains store_client (redis_key (get_month_event self name' other)) uuid st"
      unfolding get_event_keys by (intro conjI outside) blast+
  qed
  show ?thesis
    by (intro conjI ok members hour_other day_other week_other month_other name_other)
qed

theorem mark_event_membership_witness:
  "redis_client (Bitmapist_init store_client None None None) = store_client \<and> (0::int) \<le> 123
   \<and> positive_ttl None \<and> positive_ttl (Some 1)
   \<and> fst (mark_event (Bitmapist_init store_client None None None)
          \<lparr>year = 2012, month = 10, day = 23, hour = 13, isocalendar = (2012, 43, 2)\<rparr> ''active'' 123
          (Some \<lparr>year = 2012, month = 10, day = 23, hour = 13, isocalendar = (2012, 43, 2)\<rparr>)
          True True True True None None None (Some 1) empty_store) = Inr ()
   \<and> contains store_client (redis_key (get_hour_event (Bitmapist_init store_client None None None) ''active'' \<lparr>year = 2012, month = 10, day = 23, hour = 13, isocalendar = (2012, 43, 2)\<rparr>)) 123
        (snd (mark_event (Bitmapist_init store_client None None None)
              \<lparr>year = 2012, month = 10, day = 23, hour = 13, isocalendar = (2012, 43, 2)\<rparr> ''active'' 123
              (Some \<lparr>year = 2012, month = 10, day = 23, hour = 13, isocalendar = (2012, 43, 2)\<rparr>)
              True True True True None None None (Some 1) empty_store)) = Inr True
   \<and> contains store_client (redis_key (get_day_event (Bitmapist_init store_client None None None) ''active'' \<lparr>year = 2012, month = 10, day = 23, hour = 13, isocalendar = (2012, 43, 2)\<rparr>)) 123
        (snd (mark_event (Bitmapist_init store_client None None None)
              \<lparr>year = 2012, month = 10, day = 23, hour = 13, isocalendar = (2012, 43, 2)\<rparr> ''active'' 123
              (Some \<lparr>year = 2012, month = 10, day = 23, hour = 13, isocalendar = (2012, 43, 2)\<rparr>)
              True True True True None None None (Some 1) empty_store)) = Inr True
   \<and> contains store_client (redis_key (get_week_event (Bitmapist_init store_client None None None) ''active'' \<lparr>year = 2012, month = 10, day = 23, hour = 13, isocalendar = (2012, 43, 2)\<rparr>)) 123
        (snd (mark_event (Bitmapist_init store_client None None None)
              \<lparr>year = 2012, month = 10, day = 23, hour = 13, isocalendar = (2012, 43, 2)\<rparr> ''active'' 123
              (Some \<lparr>year = 2012, month = 10, day = 23, hour = 13, isocalendar = (2012, 43, 2)\<rparr>)
              True True True True None None None (Some 1) empty_store)) = Inr True
   \<and> contains store_client (redis_key (get_month_event (Bitmapist_init store_client None None None) ''active'' \<lparr>year = 2012, month = 10, day = 23, hour = 13, isocalendar = (2012, 43, 2)\<rparr>)) 123
        (snd (mark_event (Bitmapist_init store_client None None None)
              \<lparr>year = 2012, month = 10, day = 23, hour = 13, isocalendar = (2012, 43, 2)\<rparr> ''active'' 123
              (Some \<lparr>year = 2012, month = 10, day = 23, hour = 13, isocalendar = (2012, 43, 2)\<rparr>)
              True True True True None None None (Some 1) empty_store)) = Inr True
   \<and> contains store_client (redis_key (get_hour_event (Bitmapist_init store_client None None None) ''active'' \<lparr>year = 2012, month = 10, day = 23, hour = 12, isocalendar = (2012, 43, 2)\<rparr>)) 123
        (snd (mark_event (Bitmapist_init store_client None None None)
              \<lparr>year = 2012, month = 10, day = 23, hour = 13, isocalendar = (2012, 43, 2)\<rparr> ''active'' 123
              (Some \<lparr>year = 2012, month = 10, day = 23, hour = 13, isocalendar = (2012, 43, 2)\<rparr>)
              True True True True None None None (Some 1) empty_store)) = Inr False
   \<and> contains store_client (redis_key (get_day_event (Bitmapist_init store_client None None None) ''active'' \<lparr>year = 2012, month = 10, day = 22, hour = 13, isocalendar = (2012, 43, 1)\<rparr>)) 123
        (snd (mark_event (Bitmapist_init store_client None None None)
              \<lparr>year = 2012, month = 10, day = 23, hour = 13, isocalendar = (2012, 43, 2)\<rparr> ''active'' 123
              (Some \<lparr>year = 2012, month = 10, day = 23, hour = 13, isocalendar = (2012, 43, 2)\<rparr>)
              True True True True None None None (Some 1) empty_store)) = Inr False
   \<and> contains store_client (redis_key (get_week_event (Bitmapist_init store_client None None None) ''active'' \<lparr>year = 2012, month = 10, day = 16, hour = 13, isocalendar = (2012, 42, 2)\<rparr>)) 123
        (snd (mark_event (Bitmapist_init store_client None None None)
              \<lparr>year = 2012, month = 10, day = 23, hour = 13, isocalendar = (2012, 43, 2)\<rparr> ''active'' 123
              (Some \<lparr>year = 2012, month = 10, day = 23, hour = 13, isocalendar = (2012, 43, 2)\<rparr>)
              True True True True None None None (Some 1) empty_store)) = Inr False
   \<and> contains store_client (redis_key (get_month_event (Bitmapist_init store_client None None None) ''tasks_completed'' \<lparr>year = 2012, month = 10, day = 23, hour = 13, isocalendar = (2012, 43, 2)\<rparr>)) 123
        (snd (mark_event (Bitmapist_init store_client None None None)
              \<lparr>year = 2012, month = 10, day = 23, hour = 13, isocalendar = (2012, 43, 2)\<rparr> ''active'' 123
              (Some \<lparr>year = 2012, month = 10, day = 23, hour = 13, isocalendar = (2012, 43, 2)\<rparr>)
              True True True True None None None (Some 1) empty_store)) = Inr False"
proof -
  let ?self = "(Bitmapist_init store_client None None None)"
  let ?now = "\<lparr>year = 2012, month = 10, day = 23, hour = 13, isocalendar = (2012, 43, 2)\<rparr>"
  let ?st' = "(snd (mark_event (Bitmapist_init store_client None None None)
              \<lparr>year = 2012, month = 10, day = 23, hour = 13, isocalendar = (2012, 43, 2)\<rparr> ''active'' 123
              (Some \<lparr>year = 2012, month = 10, day = 23, hour = 13, isocalendar = (2012, 43, 2)\<rparr>)
              True True True True None None None (Some 1) empty_store))"
  have cli: "redis_client ?self = store_client"
    by (simp add: Bitmapist_init_def)
  have u: "(0::int) \<le> 123"
    by simp
  have p: "positive_ttl None" and p1: "positive_ttl (Some 1)"
    by (simp_all add: positive_ttl_def)
  have n: "?now = (case Some ?now of None \<Rightarrow> ?now | Some n \<Rightarrow> n)"
    by simp
  have empty: "contains store_client k 123 empty_store = Inr False" for k
    by (simp add: contains_store empty_store_def value_of_def bytes_getbit_def)
  note hour_ago = mark_event_membership
    [where name = "''active''" and st = empty_store and name' = "''tasks_completed''"
       and other = "\<lparr>year = 2012, month = 10, day = 23, hour = 12, isocalendar = (2012, 43, 2)\<rparr>", OF cli u p p p p1 n refl]
  note day_ago = mark_event_membership
    [where name = "''active''" and st = empty_store and name' = "''tasks_completed''"
       and other = "\<lparr>year = 2012, month = 10, day = 22, hour = 13, isocalendar = (2012, 43, 1)\<rparr>", OF cli u p p p p1 n refl]
  note week_ago = mark_event_membership
    [where name = "''active''" and st = empty_store and name' = "''tasks_completed''"
       and other = "\<lparr>year = 2012, month = 10, day = 16, hour = 13, isocalendar = (2012, 42, 2)\<rparr>", OF cli u p p p p1 n refl]
  note other_name = mark_event_membership
    [where name = "''active''" and st = empty_store and name' = "''tasks_completed''"
       and other = ?now, OF cli u p p p p1 n refl]
  note ok = hour_ago [THEN conjunct1]
  note in_hour = hour_ago [THEN conjunct2, THEN conjunct1]
  note in_day = hour_ago [THEN conjunct2, THEN conjunct2, THEN conjunct1]
  note in_week = hour_ago [THEN conjunct2, THEN conjunct2, THEN conjunct2, THEN conjunct1]
  note in_month = hour_ago [THEN conjunct2, THEN conjunct2, THEN conjunct2, THEN conjunct2, THEN conjunct1]
  have not_hour: "contains store_client (redis_key (get_hour_event ?self ''active'' \<lparr>year = 2012, month = 10, day = 23, hour = 12, isocalendar = (2012, 43, 2)\<rparr>))
      123 ?st' = Inr False"
    using hour_ago [THEN conjunct2, THEN conjunct2, THEN conjunct2, THEN conjunct2, THEN conjunct2, THEN conjunct1] by (simp add: empty)
  have not_day: "contains store_client (redis_key (get_day_event ?self ''active'' \<lparr>year = 2012, month = 10, day = 22, hour = 13, isocalendar = (2012, 43, 1)\<rparr>))
      123 ?st' = Inr False"
    using day_ago [THEN conjunct2, THEN conjunct2, THEN conjunct2, THEN conjunct2, THEN conjunct2, THEN conjunct2, THEN conjunct1] by (simp add: empty)
  have not_week: "contains store_client (redis_key (get_week_event ?self ''active'' \<lparr>year = 2012, month = 10, day = 16, hour = 13, isocalendar = (2012, 42, 2)\<rparr>))
      123 ?st' = Inr False"
    using week_ago [THEN conjunct2, THEN conjunct2, THEN conjunct2, THEN conjunct2, THEN conjunct2, THEN conjunct2, THEN conjunct2, THEN conjunct1] by (simp add: empty)
  have divider: "''tasks_completed'' \<noteq> ''active'' \<and> divider ?self \<noteq> []
      \<and> last (divider ?self) \<notin> set ''0123456789-W''"
    by (simp add: Bitmapist_init_def)
  have not_other: "contains store_client (redis_key (get_month_event ?self ''tasks_completed'' ?now))
      123 ?st' = Inr False"
    using other_name [THEN conjunct2, THEN conjunct2, THEN conjunct2, THEN conjunct2, THEN conjunct2, THEN conjunct2, THEN conjunct2, THEN conjunct2, THEN conjunct2, rule_format, OF divider] by (simp add: empty)
  show ?thesis
    by (intro conjI cli u p p1 ok in_hour in_day in_week in_month not_hour not_day not_week
          not_other)
qed

end
